theory Spec2Isabelle
  imports Main "HOL-Library.Multiset"
begin

section \<open>Data model (types.ts)\<close>

datatype Suit = Spades | Hearts | Clubs | Diamonds

text \<open>The enum \<open>Rank\<close> is numeric (Two = 2 .. Ace = 14); ranks are compared as numbers.\<close>

type_synonym Rank = nat

definition Jack :: Rank where "Jack = 11"
definition Queen :: Rank where "Queen = 12"
definition King :: Rank where "King = 13"
definition Ace :: Rank where "Ace = 14"

text \<open>Field \<open>id\<close> of \<open>Card\<close> is \<open>cid\<close> here, field \<open>id\<close> of \<open>Player\<close> is \<open>pid\<close>, and the
  field \<open>card\<close> of a table entry is \<open>card_t\<close> (the source names are constants of HOL).\<close>

record Card =
  cid :: string
  suit :: Suit
  rank :: Rank

datatype GamePhase =
    LOBBY | HAKIM_DETERMINATION | DEALING_INITIAL | HAKIM_CHOOSING_SUIT
  | DEALING_REMAINDER | PLAYING | ROUND_END | MATCH_END

record Player =
  pid :: string
  name :: string
  hand :: "Card list"
  teamId :: int
  isConnected :: bool

record TableCard =
  playerId :: string
  card_t :: Card

datatype Mode = Mode2p | Mode4p

record GameState =
  roomId :: string
  mode :: Mode
  phase :: GamePhase
  players :: "Player option list"
  deck :: "Card list"
  hakimId :: "string option"
  hokm :: "Suit option"
  currentTurnPlayerId :: "string option"
  tableCards :: "TableCard list"
  scores :: "int \<rightharpoonup> int"
  currentRoundTricks :: "int \<rightharpoonup> int"
  hakimDeterminationCards :: "Card list"
  lastWinnerId :: "string option"
  logs :: "string list"
  lastActionTimestamp :: "int option"

datatype error = ROOM_NOT_FOUND | FULL | TypeError | UpdateError

section \<open>Trick winner and round points (utils.ts)\<close>

text \<open>One iteration of the loop of \<open>determineTrickWinner\<close>, on the pair
  \<open>(winnerId, winningCard)\<close>. The trump suit is an option: the caller passes
  \<open>roomData.hokm!\<close>, which is \<open>null\<close> at run time when no trump is set, and then no card
  compares equal to it.\<close>

definition trickStep :: "Suit option \<Rightarrow> Suit \<Rightarrow> string \<times> Card \<Rightarrow> TableCard \<Rightarrow> string \<times> Card" where
  "trickStep hokm' starterSuit w c =
     (let winnerId = fst w; winningCard = snd w;
          current = card_t c; currentPid = playerId c;
          isCurrentHokm = (Some (suit current) = hokm');
          isWinningHokm = (Some (suit winningCard) = hokm')
      in if isCurrentHokm \<and> \<not> isWinningHokm then (currentPid, current)
         else if isCurrentHokm \<and> isWinningHokm then
           (if rank current > rank winningCard then (currentPid, current)
            else (winnerId, winningCard))
         else if \<not> isCurrentHokm \<and> \<not> isWinningHokm then
           (if suit current = starterSuit \<and> suit current = suit winningCard then
              (if rank current > rank winningCard then (currentPid, current)
               else (winnerId, winningCard))
            else (winnerId, winningCard))
         else (winnerId, winningCard))"

fun trickLoop :: "Suit option \<Rightarrow> Suit \<Rightarrow> string \<times> Card \<Rightarrow> TableCard list \<Rightarrow> string \<times> Card" where
  "trickLoop hokm' starterSuit w [] = w"
| "trickLoop hokm' starterSuit w (c # cs) =
     trickLoop hokm' starterSuit (trickStep hokm' starterSuit w c) cs"

text \<open>\<open>cards[0].playerId\<close> on an empty array throws a TypeError.\<close>

definition determineTrickWinner :: "TableCard list \<Rightarrow> Suit option \<Rightarrow> Suit \<Rightarrow> error + string" where
  "determineTrickWinner cards hokm' starterSuit =
     (case cards of
        [] \<Rightarrow> Inl TypeError
      | c # cs \<Rightarrow> Inr (fst (trickLoop hokm' starterSuit (playerId c, card_t c) cs)))"

definition calculateRoundPoints :: "int \<Rightarrow> int \<Rightarrow> bool \<Rightarrow> int" where
  "calculateRoundPoints winningTeamTricks losingTeamTricks isWinnerHakimTeam =
     (if losingTeamTricks = 0 then
        (if \<not> isWinnerHakimTeam then 3 else 2)
      else 1)"

section \<open>JavaScript array and number helpers\<close>

text \<open>\<open>a % b\<close> on integers: the remainder has the sign of the dividend.\<close>

definition jsRem :: "int \<Rightarrow> int \<Rightarrow> int" where
  "jsRem a b = sgn a * (\<bar>a\<bar> mod \<bar>b\<bar>)"

text \<open>\<open>xs.slice(a, b)\<close> and \<open>xs.slice(a)\<close> for \<open>0 \<le> a \<le> b\<close>.\<close>

definition slice :: "nat \<Rightarrow> nat \<Rightarrow> 'a list \<Rightarrow> 'a list" where
  "slice a b xs = take (b - a) (drop a xs)"

text \<open>\<open>players[i]\<close> read as a condition: an index outside the array gives
  \<open>undefined\<close>, which is as falsy as the \<open>null\<close> of an empty seat.\<close>

definition seatAt :: "Player option list \<Rightarrow> int \<Rightarrow> Player option" where
  "seatAt ps i = (if 0 \<le> i \<and> i < int (length ps) then ps ! nat i else None)"

text \<open>\<open>players[i] = v\<close>: inside the array an update; beyond its end the array grows
  and the holes read as empty seats. A negative index sets a property that is not an
  element (and is not serialised), so the array is as before.\<close>

definition setSeat :: "Player option list \<Rightarrow> int \<Rightarrow> Player option \<Rightarrow> Player option list" where
  "setSeat ps i v =
     (if i < 0 then ps
      else if i < int (length ps) then ps[nat i := v]
      else ps @ replicate (nat i - length ps) None @ [v])"

text \<open>\<open>players.find((p) => p && P p)\<close> and \<open>players.findIndex((p) => p && P p)\<close>;
  the latter is \<open>-1\<close> when no seat qualifies.\<close>

fun findPlayer :: "(Player \<Rightarrow> bool) \<Rightarrow> Player option list \<Rightarrow> Player option" where
  "findPlayer P [] = None"
| "findPlayer P (None # ps) = findPlayer P ps"
| "findPlayer P (Some p # ps) = (if P p then Some p else findPlayer P ps)"

fun findPlayerIndexFrom :: "(Player \<Rightarrow> bool) \<Rightarrow> int \<Rightarrow> Player option list \<Rightarrow> int" where
  "findPlayerIndexFrom P i [] = -1"
| "findPlayerIndexFrom P i (None # ps) = findPlayerIndexFrom P (i + 1) ps"
| "findPlayerIndexFrom P i (Some p # ps) =
     (if P p then i else findPlayerIndexFrom P (i + 1) ps)"

definition findPlayerIndex :: "(Player \<Rightarrow> bool) \<Rightarrow> Player option list \<Rightarrow> int" where
  "findPlayerIndex P ps = findPlayerIndexFrom P 0 ps"

text \<open>\<open>m[k] || 0\<close> and \<open>m[k] >= 7\<close> on a team-indexed object; a missing key reads
  \<open>undefined\<close>, which is replaced by 0 in the first and compares false in the second.\<close>

definition orZero :: "(int \<rightharpoonup> int) \<Rightarrow> int \<Rightarrow> int" where
  "orZero m k = (case m k of None \<Rightarrow> 0 | Some v \<Rightarrow> v)"

definition atLeast7 :: "(int \<rightharpoonup> int) \<Rightarrow> int \<Rightarrow> bool" where
  "atLeast7 m k = (case m k of None \<Rightarrow> False | Some v \<Rightarrow> 7 \<le> v)"

text \<open>Decimal text of a number, as template strings and \<open>toString\<close> print it.\<close>

function showNat :: "nat \<Rightarrow> string" where
  "showNat n =
     (if n < 10 then [''0123456789'' ! n]
      else showNat (n div 10) @ [''0123456789'' ! (n mod 10)])"
  by pat_completeness auto
termination
  by (relation "measure id") auto

declare showNat.simps [simp del]

definition showInt :: "int \<Rightarrow> string" where
  "showInt i = (if i < 0 then ''-'' @ showNat (nat (- i)) else showNat (nat i))"

section \<open>Deck and shuffle (utils.ts)\<close>

definition suitCode :: "Suit \<Rightarrow> string" where
  "suitCode s = (case s of Spades \<Rightarrow> ''S'' | Hearts \<Rightarrow> ''H'' | Clubs \<Rightarrow> ''C'' | Diamonds \<Rightarrow> ''D'')"

text \<open>The deck of \<open>createDeck\<close> before it is shuffled: for each suit in the order
  Spades, Hearts, Clubs, Diamonds the ranks 2 to 14, with id \<open>suit-rank\<close>.\<close>

definition orderedDeck :: "Card list" where
  "orderedDeck =
     concat (map (\<lambda>s. map (\<lambda>r. \<lparr>cid = suitCode s @ ''-'' @ showNat r, suit = s, rank = r\<rparr>)
                          [2 ..< 15])
                 [Spades, Hearts, Clubs, Diamonds])"

text \<open>The Fisher-Yates loop, for \<open>i\<close> from the last index down to 1. The random source
  is the parameter \<open>rnd\<close>: \<open>rnd i\<close> is the result of
  \<open>Math.floor(Math.random() * (i + 1))\<close> drawn in the iteration for index \<open>i\<close>
  (a number from 0 to \<open>i\<close>). The destructuring swap reads both elements before it
  writes \<open>newDeck[i]\<close> and then \<open>newDeck[j]\<close>.\<close>

fun shuffleLoop :: "(nat \<Rightarrow> nat) \<Rightarrow> nat \<Rightarrow> 'a list \<Rightarrow> 'a list" where
  "shuffleLoop rnd 0 newDeck = newDeck"
| "shuffleLoop rnd (Suc i) newDeck =
     (let j = rnd (Suc i)
      in shuffleLoop rnd i (newDeck[Suc i := newDeck ! j, j := newDeck ! Suc i]))"

definition shuffleDeck :: "(nat \<Rightarrow> nat) \<Rightarrow> 'a list \<Rightarrow> 'a list" where
  "shuffleDeck rnd deck' = shuffleLoop rnd (length deck' - 1) deck'"

definition createDeck :: "(nat \<Rightarrow> nat) \<Rightarrow> Card list" where
  "createDeck rnd = shuffleDeck rnd orderedDeck"

text \<open>A random source as \<open>Math.random\<close> gives it: every draw for index \<open>i\<close> is at most \<open>i\<close>.\<close>

definition validRnd :: "(nat \<Rightarrow> nat) \<Rightarrow> bool" where
  "validRnd rnd = (\<forall>i. rnd i \<le> i)"

section \<open>The shared document and its two write paths (App.tsx)\<close>

text \<open>The remote table \<open>rooms\<close>: one document per room id.\<close>

type_synonym store = "string \<rightharpoonup> GameState"

definition maxPlayers :: "Mode \<Rightarrow> int" where
  "maxPlayers m = (if m = Mode4p then 4 else 2)"

text \<open>\<open>updateRemoteState\<close>: the broadcast path. A patch (the \<open>Partial<GameState>\<close>) is a
  function that overrides fields; it is laid over \<open>stateRef.current\<close> and the result
  replaces the row of the room. An update that matches no row changes nothing, and an
  error is only logged.\<close>

definition updateRemoteState ::
  "string \<Rightarrow> GameState \<Rightarrow> (GameState \<Rightarrow> GameState) \<Rightarrow> store \<Rightarrow> store" where
  "updateRemoteState roomId' stateRefCurrent newState st =
     (if roomId' = [] then st
      else (let fullState = newState stateRefCurrent
            in case st roomId' of None \<Rightarrow> st | Some old \<Rightarrow> st(roomId' \<mapsto> fullState)))"

text \<open>\<open>performTransaction\<close>: fetch, apply the modifier, write back when the modifier
  returned a state. A modifier returns \<open>Inr None\<close> for \<open>null\<close>, \<open>Inr (Some s)\<close> for a
  state and \<open>Inl e\<close> when it throws. \<open>updateError\<close> is what the store answers to the
  write; a thrown error leaves the store as it was.\<close>

definition performTransaction ::
  "(GameState \<Rightarrow> error + GameState option) \<Rightarrow> string \<Rightarrow> error option \<Rightarrow> store \<Rightarrow> error + store" where
  "performTransaction modifier targetId updateError st =
     (if targetId = [] then Inr st
      else case st targetId of
        None \<Rightarrow> Inl ROOM_NOT_FOUND
      | Some currentRemoteState \<Rightarrow>
          (case modifier currentRemoteState of
             Inl e \<Rightarrow> Inl e
           | Inr None \<Rightarrow> Inr st
           | Inr (Some newState) \<Rightarrow>
               (case updateError of
                  Some e \<Rightarrow> Inl e
                | None \<Rightarrow> Inr (st(targetId \<mapsto> newState)))))"

text \<open>The host is the first seated, connected player.\<close>

definition hostId :: "GameState \<Rightarrow> string option" where
  "hostId gameState = map_option pid (findPlayer isConnected (players gameState))"

definition isHost :: "GameState \<Rightarrow> string \<Rightarrow> bool" where
  "isHost gameState userId = (hostId gameState = Some userId)"

section \<open>Playing a card\<close>

text \<open>The modifier that \<open>handlePlayCard\<close> hands to \<open>performTransaction\<close>. \<open>maxP\<close> is
  computed by the caller from its local copy; \<open>now\<close> is \<open>Date.now()\<close>. The fields
  \<open>tableCards\<close>, \<open>scores\<close>, \<open>currentRoundTricks\<close> and \<open>logs\<close> are declared non-null in
  \<open>GameState\<close>, so the source's guards against their absence have no branch here.\<close>

definition playCardModifier ::
  "string \<Rightarrow> int \<Rightarrow> Card \<Rightarrow> int \<Rightarrow> GameState \<Rightarrow> error + GameState option" where
  "playCardModifier userId maxP card' now roomData =
     (if currentTurnPlayerId roomData \<noteq> Some userId then Inr None
      else if int (length (tableCards roomData)) \<ge> maxP then Inr None
      else
        (let currentPlayerIndex = findPlayerIndex (\<lambda>p. pid p = userId) (players roomData)
         in if currentPlayerIndex = -1 then Inr None
            else case seatAt (players roomData) currentPlayerIndex of
              None \<Rightarrow> Inr None
            | Some currentPlayer \<Rightarrow>
                (let newHand = filter (\<lambda>c. cid c \<noteq> cid card') (hand currentPlayer);
                     players1 = setSeat (players roomData) currentPlayerIndex
                                  (Some (currentPlayer\<lparr>hand := newHand\<rparr>));
                     tableCards1 = tableCards roomData @ [\<lparr>playerId = userId, card_t = card'\<rparr>];
                     nextPlayerIndex = jsRem (currentPlayerIndex + 1) maxP;
                     nextPlayer = seatAt players1 nextPlayerIndex
                 in Inr (Some (roomData\<lparr>players := players1,
                                        tableCards := tableCards1,
                                        lastActionTimestamp := Some now,
                                        currentTurnPlayerId := map_option pid nextPlayer\<rparr>)))))"

text \<open>\<open>handlePlayCard\<close>: the checks on the local copy \<open>gameState\<close>, then the
  transaction on the room \<open>roomId'\<close> of the store. Every early \<open>return\<close> leaves the
  store as it is.\<close>

definition handlePlayCard ::
  "GameState \<Rightarrow> string \<Rightarrow> Card \<Rightarrow> int \<Rightarrow> string \<Rightarrow> error option \<Rightarrow> store \<Rightarrow> error + store" where
  "handlePlayCard gameState userId card' now roomId' updateError st =
     (if currentTurnPlayerId gameState \<noteq> Some userId then Inr st
      else
        (let maxP = maxPlayers (mode gameState)
         in if int (length (tableCards gameState)) \<ge> maxP then Inr st
            else case findPlayer (\<lambda>p. pid p = userId) (players gameState) of
              None \<Rightarrow> Inr st
            | Some player \<Rightarrow>
                if tableCards gameState \<noteq> []
                   \<and> (let leadSuit = suit (card_t (hd (tableCards gameState)));
                          hasSuit = (\<exists>c \<in> set (hand player). suit c = leadSuit)
                      in hasSuit \<and> suit card' \<noteq> leadSuit)
                then Inr st
                else performTransaction (playCardModifier userId maxP card' now)
                       roomId' updateError st))"

section \<open>Resolving a trick, scoring and the end of a hand\<close>

text \<open>The log lines are Persian text in the source; the model keeps their numbers and
  replaces the words by ASCII tags.\<close>

definition matchEndLog :: "int \<Rightarrow> string" where
  "matchEndLog handWinnerTeamId = ''match over, winner team '' @ showInt handWinnerTeamId"

definition showScore :: "int option \<Rightarrow> string" where
  "showScore v = (case v of None \<Rightarrow> ''undefined'' | Some n \<Rightarrow> showInt n)"

definition handEndLog :: "(int \<rightharpoonup> int) \<Rightarrow> string" where
  "handEndLog sc = ''hand over, new score '' @ showScore (sc 1) @ '' - '' @ showScore (sc 2)"

text \<open>The pieces of \<open>finishTrickRemote\<close> in the order of the source: the trick counts
  after the winner's team got its trick, the team that won the hand
  (\<open>handWinnerTeamId\<close>, 0 while \<open>handOver\<close> is false; the test for team 2 comes second
  and overrides), whether the hakim sits in that team, the points and the new scores,
  and the next hakim.\<close>

definition tricksAfter :: "GameState \<Rightarrow> int \<Rightarrow> (int \<rightharpoonup> int)" where
  "tricksAfter roomData winnerTeamId =
     (currentRoundTricks roomData)
       (winnerTeamId \<mapsto> orZero (currentRoundTricks roomData) winnerTeamId + 1)"

definition handOver :: "(int \<rightharpoonup> int) \<Rightarrow> bool" where
  "handOver crt = (atLeast7 crt 1 \<or> atLeast7 crt 2)"

definition handWinnerTeamId :: "(int \<rightharpoonup> int) \<Rightarrow> int" where
  "handWinnerTeamId crt = (if atLeast7 crt 2 then 2 else if atLeast7 crt 1 then 1 else 0)"

definition isHakimTeam :: "GameState \<Rightarrow> int \<Rightarrow> bool" where
  "isHakimTeam roomData team =
     (case findPlayer (\<lambda>p. Some (pid p) = hakimId roomData) (players roomData) of
        None \<Rightarrow> False
      | Some hakimPlayer \<Rightarrow> teamId hakimPlayer = team)"

definition handPoints :: "GameState \<Rightarrow> (int \<rightharpoonup> int) \<Rightarrow> int" where
  "handPoints roomData crt =
     (let team = handWinnerTeamId crt;
          losingTeamId = (if team = 1 then 2 else 1);
          losingTricks = orZero crt losingTeamId
      in calculateRoundPoints 7 losingTricks (isHakimTeam roomData team))"

definition scoresAfter :: "GameState \<Rightarrow> (int \<rightharpoonup> int) \<Rightarrow> (int \<rightharpoonup> int)" where
  "scoresAfter roomData crt =
     (let team = handWinnerTeamId crt
      in (scores roomData)(team \<mapsto> orZero (scores roomData) team + handPoints roomData crt))"

definition nextHakimId :: "GameState \<Rightarrow> int \<Rightarrow> string option" where
  "nextHakimId roomData maxP =
     (let currentHakimIdx = findPlayerIndex (\<lambda>p. Some (pid p) = hakimId roomData) (players roomData);
          nextIdx = jsRem (currentHakimIdx + 1) maxP;
          nextPlayer = seatAt (players roomData) nextIdx
      in map_option pid nextPlayer)"

definition finishTrickModifier :: "GameState \<Rightarrow> error + GameState option" where
  "finishTrickModifier roomData =
     (let maxP = maxPlayers (mode roomData)
      in if int (length (tableCards roomData)) < maxP then Inr None
         else
           (let cards = tableCards roomData
            in case determineTrickWinner cards (hokm roomData) (suit (card_t (hd cards))) of
                 Inl e \<Rightarrow> Inl e
               | Inr winnerId \<Rightarrow>
                   (case findPlayer (\<lambda>p. pid p = winnerId) (players roomData) of
                      None \<Rightarrow> Inr None
                    | Some winnerPlayer \<Rightarrow>
                        (let crt = tricksAfter roomData (teamId winnerPlayer);
                             rd1 = roomData\<lparr>currentRoundTricks := crt,
                                             lastWinnerId := Some winnerId,
                                             currentTurnPlayerId := Some winnerId\<rparr>
                         in if \<not> handOver crt then Inr (Some (rd1\<lparr>tableCards := []\<rparr>))
                            else
                              (let team = handWinnerTeamId crt;
                                   sc = scoresAfter rd1 crt;
                                   rd2 = rd1\<lparr>scores := sc\<rparr>
                               in if atLeast7 sc team then
                                    Inr (Some (rd2\<lparr>phase := MATCH_END,
                                                     logs := logs rd2 @ [matchEndLog team]\<rparr>))
                                  else
                                    (let newHakimId =
                                           (if \<not> isHakimTeam rd2 team then nextHakimId rd2 maxP
                                            else hakimId rd2)
                                     in Inr (Some (rd2\<lparr>phase := DEALING_INITIAL,
                                                         deck := [],
                                                         tableCards := [],
                                                         currentRoundTricks := [1 \<mapsto> 0, 2 \<mapsto> 0],
                                                         hakimId := newHakimId,
                                                         hokm := None,
                                                         hakimDeterminationCards := [],
                                                         logs := logs rd2 @ [handEndLog sc]\<rparr>))))))))"

section \<open>Joining, changing seat, announcing presence\<close>

text \<open>The first index below \<open>max\<close> whose seat is empty (or beyond the array).\<close>

definition emptySlot :: "Player option list \<Rightarrow> nat \<Rightarrow> nat option" where
  "emptySlot ps max' = find (\<lambda>i. seatAt ps (int i) = None) [0 ..< max']"

definition joinRoomModifier :: "string \<Rightarrow> string \<Rightarrow> GameState \<Rightarrow> error + GameState option" where
  "joinRoomModifier userId myName roomData =
     (let existingIdx = findPlayerIndex (\<lambda>p. pid p = userId) (players roomData)
      in if existingIdx \<noteq> -1 then
           (case seatAt (players roomData) existingIdx of
              None \<Rightarrow> Inr (Some roomData)
            | Some p \<Rightarrow>
                (let rd1 = roomData\<lparr>players := setSeat (players roomData) existingIdx
                                                  (Some (p\<lparr>isConnected := True\<rparr>))\<rparr>
                 in if phase rd1 = HAKIM_DETERMINATION
                       \<and> (hakimId rd1 = None \<or> hakimId rd1 = Some [])
                    then Inr (Some (rd1\<lparr>hakimDeterminationCards := []\<rparr>))
                    else Inr (Some rd1)))
         else
           (case emptySlot (players roomData) (if mode roomData = Mode2p then 2 else 4) of
              None \<Rightarrow> Inl FULL
            | Some emptySlotIdx \<Rightarrow>
                (let team = (if emptySlotIdx mod 2 = 0 then 1 else 2);
                     pNew = \<lparr>pid = userId, name = myName, hand = [], teamId = team,
                             isConnected = True\<rparr>
                 in Inr (Some (roomData\<lparr>players :=
                       setSeat (players roomData) (int emptySlotIdx) (Some pNew)\<rparr>)))))"

definition switchSeatModifier :: "string \<Rightarrow> nat \<Rightarrow> GameState \<Rightarrow> error + GameState option" where
  "switchSeatModifier userId targetIndex roomData =
     (let myCurrentIndex = findPlayerIndex (\<lambda>p. pid p = userId) (players roomData)
      in if myCurrentIndex = -1 then Inr None
         else case seatAt (players roomData) (int targetIndex) of
           Some targetSlot \<Rightarrow> Inr None
         | None \<Rightarrow>
             (case seatAt (players roomData) myCurrentIndex of
                None \<Rightarrow> Inr None
              | Some me \<Rightarrow>
                  (let me1 = me\<lparr>teamId := (if targetIndex mod 2 = 0 then 1 else 2)\<rparr>;
                       players1 = setSeat (players roomData) (int targetIndex) (Some me1);
                       players2 = setSeat players1 myCurrentIndex None
                   in Inr (Some (roomData\<lparr>players := players2\<rparr>)))))"

definition handleSwitchSeat ::
  "GameState \<Rightarrow> string \<Rightarrow> nat \<Rightarrow> string \<Rightarrow> error option \<Rightarrow> store \<Rightarrow> error + store" where
  "handleSwitchSeat gameState userId targetIndex roomId' updateError st =
     (if phase gameState \<noteq> LOBBY then Inr st
      else performTransaction (switchSeatModifier userId targetIndex) roomId' updateError st)"

definition presenceModifier :: "string \<Rightarrow> GameState \<Rightarrow> error + GameState option" where
  "presenceModifier userId s =
     (let myIdx = findPlayerIndex (\<lambda>p. pid p = userId) (players s)
      in if myIdx \<noteq> -1 then
           (case seatAt (players s) myIdx of
              None \<Rightarrow> Inr None
            | Some p \<Rightarrow> Inr (Some (s\<lparr>players :=
                  setSeat (players s) myIdx (Some (p\<lparr>isConnected := True\<rparr>))\<rparr>)))
         else Inr None)"

section \<open>Hakim determination (host only)\<close>

text \<open>The closure variables of the reveal timer: \<open>index\<close>, \<open>tempCards\<close>, and whether
  \<open>clearInterval\<close> has been called.\<close>

record RevealTimer =
  index :: nat
  tempCards :: "Card list"
  cleared :: bool

definition hakimLog :: "string \<Rightarrow> string" where
  "hakimLog winnerName = winnerName @ '' became hakim''"

text \<open>One firing of the interval callback, on the timer and on the host's copy of the
  document, which is taken to follow the host's own writes (no other writer in between).
  The write of the revealed cards and, on an Ace, the delayed write of the hakim are both
  \<open>updateRemoteState\<close> patches laid over that copy. A deck that runs out makes
  \<open>card.rank\<close> throw.\<close>

definition hakimTick ::
  "int \<Rightarrow> Card list \<Rightarrow> RevealTimer \<times> GameState \<Rightarrow> error + (RevealTimer \<times> GameState)" where
  "hakimTick maxP deck' tc =
     (let t = fst tc; cur = snd tc
      in if cleared t then Inr (t, cur)
         else if phase cur \<noteq> HAKIM_DETERMINATION then Inr (t\<lparr>cleared := True\<rparr>, cur)
         else if index t \<ge> length deck' then Inl TypeError
         else
           (let card' = deck' ! index t;
                t1 = t\<lparr>index := index t + 1, tempCards := tempCards t @ [card']\<rparr>;
                cur1 = cur\<lparr>hakimDeterminationCards := tempCards t1\<rparr>
            in if rank card' = Ace then
                 (let winningPlayerIndex = jsRem (int (index t1) - 1) maxP
                  in case seatAt (players cur1) winningPlayerIndex of
                       None \<Rightarrow> Inr (t1\<lparr>cleared := True\<rparr>, cur1)
                     | Some winner \<Rightarrow>
                         Inr (t1\<lparr>cleared := True\<rparr>,
                              cur1\<lparr>hakimId := Some (pid winner),
                                   currentTurnPlayerId := Some (pid winner),
                                   phase := DEALING_INITIAL,
                                   logs := logs cur1 @ [hakimLog (name winner)]\<rparr>))
               else Inr (t1, cur1)))"

fun hakimTicks ::
  "nat \<Rightarrow> int \<Rightarrow> Card list \<Rightarrow> RevealTimer \<times> GameState \<Rightarrow> error + (RevealTimer \<times> GameState)" where
  "hakimTicks 0 maxP deck' tc = Inr tc"
| "hakimTicks (Suc n) maxP deck' tc =
     (case hakimTick maxP deck' tc of
        Inl e \<Rightarrow> Inl e
      | Inr tc' \<Rightarrow> hakimTicks n maxP deck' tc')"

text \<open>The effect itself: only the host, only in \<open>HAKIM_DETERMINATION\<close> with no card
  revealed yet, starts a timer on a fresh deck; \<open>n\<close> is the number of firings
  observed. Otherwise nothing is started (\<open>None\<close>).\<close>

definition hakimDetermination ::
  "string \<Rightarrow> GameState \<Rightarrow> Card list \<Rightarrow> nat \<Rightarrow> (error + (RevealTimer \<times> GameState)) option" where
  "hakimDetermination userId gameState deck' n =
     (if \<not> isHost gameState userId then None
      else if phase gameState = HAKIM_DETERMINATION \<and> hakimDeterminationCards gameState = []
      then Some (hakimTicks n (maxPlayers (mode gameState)) deck'
                   (\<lparr>index = 0, tempCards = [], cleared = False\<rparr>, gameState))
      else None)"

section \<open>Dealing (host only)\<close>

text \<open>The dealing effect runs on the rendered copy \<open>gameState\<close>; its timer later lays the
  patch over \<open>stateRef.current\<close> and sends the result to \<open>updateRemoteState\<close>. The
  functions below return that full state, or \<open>None\<close> where the effect returns without
  writing. \<open>fullDeck\<close> is the result of \<open>createDeck()\<close>.\<close>

definition dealInitial :: "GameState \<Rightarrow> GameState \<Rightarrow> Card list \<Rightarrow> GameState option" where
  "dealInitial gameState stateRefCurrent fullDeck =
     (if length (deck gameState) > 0 then None
      else
        (let hakimIndex = findPlayerIndex (\<lambda>p. Some (pid p) = hakimId gameState) (players gameState)
         in if hakimIndex = -1 then None
            else
              (let p1Hand = slice 0 5 fullDeck;
                   remainingDeck = drop 5 fullDeck;
                   newPlayers =
                     (case seatAt (players gameState) hakimIndex of
                        None \<Rightarrow> players gameState
                      | Some h \<Rightarrow> setSeat (players gameState) hakimIndex (Some (h\<lparr>hand := p1Hand\<rparr>)))
               in Some (stateRefCurrent\<lparr>deck := remainingDeck,
                                          players := newPlayers,
                                          phase := HAKIM_CHOOSING_SUIT\<rparr>))))"

text \<open>Completing the hakim's hand: only a hand of exactly 5 cards is extended.\<close>

definition giveHakimExtra :: "Player option list \<Rightarrow> int \<Rightarrow> Card list \<Rightarrow> Player option list" where
  "giveHakimExtra newPlayers hakimIndex hakimExtra =
     (case seatAt newPlayers hakimIndex of
        None \<Rightarrow> newPlayers
      | Some h \<Rightarrow>
          (let currentHand = hand h
           in if length currentHand = 5
              then setSeat newPlayers hakimIndex (Some (h\<lparr>hand := currentHand @ hakimExtra\<rparr>))
              else newPlayers))"

definition giveHand :: "Player option list \<Rightarrow> int \<Rightarrow> Card list \<Rightarrow> Player option list" where
  "giveHand newPlayers targetIdx hand' =
     (case seatAt newPlayers targetIdx of
        None \<Rightarrow> newPlayers
      | Some p \<Rightarrow> setSeat newPlayers targetIdx (Some (p\<lparr>hand := hand'\<rparr>)))"

text \<open>The loop \<open>for (let i = 1; i <= 3; i++)\<close> of the four-player deal, on
  \<open>(newPlayers, currentDeckIdx)\<close>.\<close>

fun dealOthers ::
  "Card list \<Rightarrow> int \<Rightarrow> int list \<Rightarrow> Player option list \<times> nat \<Rightarrow> Player option list \<times> nat" where
  "dealOthers deck' hakimIndex [] st = st"
| "dealOthers deck' hakimIndex (i # is) st =
     (let newPlayers = fst st; currentDeckIdx = snd st;
          targetIdx = jsRem (hakimIndex + i) 4;
          hand' = slice currentDeckIdx (currentDeckIdx + 13) deck'
      in dealOthers deck' hakimIndex is (giveHand newPlayers targetIdx hand', currentDeckIdx + 13))"

definition dealRemainder :: "GameState \<Rightarrow> GameState \<Rightarrow> GameState option" where
  "dealRemainder gameState stateRefCurrent =
     (if list_all (\<lambda>p. case p of None \<Rightarrow> False | Some q \<Rightarrow> length (hand q) > 5) (players gameState)
      then None
      else
        (let deck' = deck gameState;
             hakimIndex = findPlayerIndex (\<lambda>p. Some (pid p) = hakimId gameState) (players gameState)
         in if mode gameState = Mode2p then
              (let otherIndex = (if hakimIndex = 0 then 1 else 0);
                   hakimExtra = slice 0 8 deck';
                   opponentHand = slice 8 21 deck';
                   newPlayers = giveHand (giveHakimExtra (players gameState) hakimIndex hakimExtra)
                                  otherIndex opponentHand
               in Some (stateRefCurrent\<lparr>players := newPlayers,
                                          phase := PLAYING,
                                          currentTurnPlayerId := hakimId gameState\<rparr>))
            else
              (let dealt = dealOthers deck' hakimIndex [1, 2, 3] (players gameState, 0);
                   currentDeckIdx = snd dealt;
                   hakimExtra = slice currentDeckIdx (currentDeckIdx + 8) deck';
                   newPlayers = giveHakimExtra (fst dealt) hakimIndex hakimExtra
               in Some (stateRefCurrent\<lparr>players := newPlayers,
                                          phase := PLAYING,
                                          currentTurnPlayerId := hakimId gameState\<rparr>))))"

definition dealingEffect ::
  "string \<Rightarrow> GameState \<Rightarrow> GameState \<Rightarrow> Card list \<Rightarrow> GameState option" where
  "dealingEffect userId gameState stateRefCurrent fullDeck =
     (if \<not> isHost gameState userId then None
      else if phase gameState = DEALING_INITIAL then dealInitial gameState stateRefCurrent fullDeck
      else if phase gameState = DEALING_REMAINDER then dealRemainder gameState stateRefCurrent
      else None)"

text \<open>What the dealing effect does to the store of room \<open>roomId'\<close>.\<close>

definition dealingWrite ::
  "string \<Rightarrow> string \<Rightarrow> GameState \<Rightarrow> GameState \<Rightarrow> Card list \<Rightarrow> store \<Rightarrow> store" where
  "dealingWrite userId roomId' gameState stateRefCurrent fullDeck st =
     (case dealingEffect userId gameState stateRefCurrent fullDeck of
        None \<Rightarrow> st
      | Some fullState \<Rightarrow> updateRemoteState roomId' stateRefCurrent (\<lambda>_. fullState) st)"

section \<open>Transactions on the document\<close>

text \<open>The five modifiers that the program runs through \<open>performTransaction\<close>.\<close>

datatype Txn =
    PlayCard string int Card int
  | FinishTrick
  | JoinRoom string string
  | SwitchSeat string nat
  | Presence string

fun txnModifier :: "Txn \<Rightarrow> GameState \<Rightarrow> error + GameState option" where
  "txnModifier (PlayCard userId maxP card' now) = playCardModifier userId maxP card' now"
| "txnModifier FinishTrick = finishTrickModifier"
| "txnModifier (JoinRoom userId myName) = joinRoomModifier userId myName"
| "txnModifier (SwitchSeat userId targetIndex) = switchSeatModifier userId targetIndex"
| "txnModifier (Presence userId) = presenceModifier userId"

text \<open>The document after a transaction: the new state when it is accepted, the old one
  when the modifier aborts or throws.\<close>

definition applyTxn :: "Txn \<Rightarrow> GameState \<Rightarrow> GameState" where
  "applyTxn x s = (case txnModifier x s of Inr (Some s') \<Rightarrow> s' | _ \<Rightarrow> s)"

definition accepted :: "Txn \<Rightarrow> GameState \<Rightarrow> bool" where
  "accepted x s = (case txnModifier x s of Inr (Some s') \<Rightarrow> True | _ \<Rightarrow> False)"

fun runTxns :: "Txn list \<Rightarrow> GameState \<Rightarrow> GameState" where
  "runTxns [] s = s"
| "runTxns (x # xs) s = runTxns xs (applyTxn x s)"

text \<open>A team's score as the program reads it (\<open>scores[t] || 0\<close>).\<close>

definition scoreOf :: "GameState \<Rightarrow> int \<Rightarrow> int" where
  "scoreOf s t = orZero (scores s) t"

section \<open>Concrete cards, tricks and rooms\<close>

definition mkCard :: "Suit \<Rightarrow> Rank \<Rightarrow> string \<Rightarrow> Card" where
  "mkCard s r i = \<lparr>cid = i, suit = s, rank = r\<rparr>"

definition trickExample :: "TableCard list" where
  "trickExample =
     [\<lparr>playerId = ''P1'', card_t = mkCard Spades 10 ''S-10''\<rparr>,
      \<lparr>playerId = ''P2'', card_t = mkCard Hearts 11 ''H-11''\<rparr>,
      \<lparr>playerId = ''P3'', card_t = mkCard Spades 12 ''S-12''\<rparr>,
      \<lparr>playerId = ''P4'', card_t = mkCard Clubs 2 ''C-2''\<rparr>]"

definition seat :: "string \<Rightarrow> int \<Rightarrow> Card list \<Rightarrow> Player" where
  "seat i t h = \<lparr>pid = i, name = i, hand = h, teamId = t, isConnected = True\<rparr>"

text \<open>A room as \<open>createRoom\<close> writes it, before anybody is seated.\<close>

definition newRoom :: "Mode \<Rightarrow> GameState" where
  "newRoom m =
     \<lparr>roomId = ''r1'', mode = m, phase = LOBBY, players = [], deck = [],
      hakimId = None, hokm = None, currentTurnPlayerId = None, tableCards = [],
      scores = [1 \<mapsto> 0, 2 \<mapsto> 0], currentRoundTricks = [1 \<mapsto> 0, 2 \<mapsto> 0],
      hakimDeterminationCards = [], lastWinnerId = None, logs = [],
      lastActionTimestamp = Some 0\<rparr>"

text \<open>A two-player hand in progress: \<open>u1\<close> is hakim and to play, the table is empty.\<close>

definition playRoom :: GameState where
  "playRoom = (newRoom Mode2p)
     \<lparr>phase := PLAYING,
      players := [Some (seat ''u1'' 1 [mkCard Spades 2 ''S-2'', mkCard Hearts 5 ''H-5'']),
                  Some (seat ''u2'' 2 [mkCard Spades 9 ''S-9'', mkCard Diamonds 3 ''D-3''])],
      hakimId := Some ''u1'', hokm := Some Hearts, currentTurnPlayerId := Some ''u1''\<rparr>"

text \<open>The same hand with both cards of a trick on the table.\<close>

definition fullTableRoom :: GameState where
  "fullTableRoom = playRoom
     \<lparr>tableCards := [\<lparr>playerId = ''u1'', card_t = mkCard Spades 10 ''S-10''\<rparr>,
                      \<lparr>playerId = ''u2'', card_t = mkCard Spades 13 ''S-13''\<rparr>]\<rparr>"

text \<open>A room whose first deal has been made: the hakim holds the first five cards of
  the unshuffled deck and the other 47 are the room's deck.\<close>

definition dealtRoom :: "Mode \<Rightarrow> Player option list \<Rightarrow> GamePhase \<Rightarrow> GameState" where
  "dealtRoom m ps ph = (newRoom m)
     \<lparr>phase := ph, players := ps, deck := drop 5 orderedDeck,
      hakimId := Some ''u1'', currentTurnPlayerId := Some ''u1''\<rparr>"

definition seats2 :: "Player option list" where
  "seats2 = [Some (seat ''u1'' 1 (take 5 orderedDeck)), Some (seat ''u2'' 2 [])]"

definition seats4 :: "Player option list" where
  "seats4 = [Some (seat ''u0'' 1 []), Some (seat ''u1'' 2 (take 5 orderedDeck)),
             Some (seat ''u2'' 1 []), Some (seat ''u3'' 2 [])]"

text \<open>Two seated players with empty hands, and the room they sit in once \<open>u1\<close> has
  become hakim.\<close>

definition emptyHands2 :: "Player option list" where
  "emptyHands2 = [Some (seat ''u1'' 1 []), Some (seat ''u2'' 2 [])]"

definition hakimRoom :: GameState where
  "hakimRoom = (newRoom Mode2p)
     \<lparr>phase := DEALING_INITIAL, players := emptyHands2,
      hakimId := Some ''u1'', currentTurnPlayerId := Some ''u1''\<rparr>"

text \<open>The last trick of a hand: in \<open>lostHandRoom\<close> the opponent \<open>u2\<close> (team 2) takes its
  seventh trick against the hakim \<open>u1\<close>; in \<open>wonHandRoom\<close> the hakim takes the seventh
  trick of team 1.\<close>

definition lostHandRoom :: GameState where
  "lostHandRoom = fullTableRoom\<lparr>currentRoundTricks := [1 \<mapsto> 3, 2 \<mapsto> 6]\<rparr>"

definition wonHandRoom :: GameState where
  "wonHandRoom = playRoom
     \<lparr>tableCards := [\<lparr>playerId = ''u1'', card_t = mkCard Spades 13 ''S-13''\<rparr>,
                      \<lparr>playerId = ''u2'', card_t = mkCard Spades 10 ''S-10''\<rparr>],
      currentRoundTricks := [1 \<mapsto> 6, 2 \<mapsto> 3]\<rparr>"

text \<open>The same last trick with team 2 one point from the match.\<close>

definition matchPointRoom :: GameState where
  "matchPointRoom = lostHandRoom\<lparr>scores := [1 \<mapsto> 2, 2 \<mapsto> 6]\<rparr>"

text \<open>A full two-player room that has just entered hakim determination.\<close>

definition detRoom :: GameState where
  "detRoom = (newRoom Mode2p)\<lparr>phase := HAKIM_DETERMINATION, players := emptyHands2\<rparr>"

text \<open>A copy that lags behind the document: \<open>u2\<close> still sees an empty table
  (\<open>lagLocal\<close>) while the stored document already has the lead of \<open>u1\<close> on it
  (\<open>lagStored\<close>); in both it is the turn of \<open>u2\<close>, who holds a spade.\<close>

definition lagLocal :: GameState where
  "lagLocal = playRoom\<lparr>currentTurnPlayerId := Some ''u2''\<rparr>"

definition lagStored :: GameState where
  "lagStored = playRoom
     \<lparr>currentTurnPlayerId := Some ''u2'',
      tableCards := [\<lparr>playerId = ''u1'', card_t = mkCard Spades 10 ''S-10''\<rparr>]\<rparr>"

text \<open>A copy that lags by a whole trick: in the stored document \<open>staleStored\<close> the
  spade of \<open>u1\<close> and the diamond of \<open>u2\<close> have been played and \<open>u1\<close>, who took the
  trick, is to lead again, while \<open>u1\<close> still renders \<open>playRoom\<close> with the spade in
  hand.\<close>

definition staleStored :: GameState where
  "staleStored = playRoom
     \<lparr>players := [Some (seat ''u1'' 1 [mkCard Hearts 5 ''H-5'']),
                  Some (seat ''u2'' 2 [mkCard Spades 9 ''S-9''])],
      currentRoundTricks := [1 \<mapsto> 1, 2 \<mapsto> 0],
      lastWinnerId := Some ''u1''\<rparr>"

section \<open>Lemmas about the model\<close>

subsection \<open>Seats and indices\<close>

lemma findPlayerIndexFrom_none:
  "findPlayer P ps = None \<Longrightarrow> findPlayerIndexFrom P i ps = -1"
  by (induction P i ps rule: findPlayerIndexFrom.induct) (auto split: if_splits)

lemma findPlayerIndexFrom_some:
  "findPlayer P ps = Some p \<Longrightarrow>
   \<exists>k < length ps. findPlayerIndexFrom P i ps = i + int k \<and> ps ! k = Some p \<and> P p"
proof (induction P i ps rule: findPlayerIndexFrom.induct)
  case (1 P i)
  then show ?case by simp
next
  case (2 P i ps)
  then obtain k where "k < length ps" "findPlayerIndexFrom P (i + 1) ps = i + 1 + int k"
    "ps ! k = Some p" "P p" by auto
  then show ?case by (intro exI [of _ "Suc k"]) simp
next
  case (3 P i q ps)
  show ?case
  proof (cases "P q")
    case True
    with 3 show ?thesis by (intro exI [of _ 0]) simp
  next
    case False
    with 3 obtain k where "k < length ps" "findPlayerIndexFrom P (i + 1) ps = i + 1 + int k"
      "ps ! k = Some p" "P p" by auto
    with False show ?thesis by (intro exI [of _ "Suc k"]) simp
  qed
qed

lemma findPlayerIndex_none:
  "findPlayer P ps = None \<Longrightarrow> findPlayerIndex P ps = -1"
  by (simp add: findPlayerIndex_def findPlayerIndexFrom_none)

lemma findPlayerIndex_some:
  assumes "findPlayer P ps = Some p"
  shows "0 \<le> findPlayerIndex P ps \<and> findPlayerIndex P ps < int (length ps)
         \<and> seatAt ps (findPlayerIndex P ps) = Some p \<and> P p"
proof -
  from findPlayerIndexFrom_some [OF assms, of 0]
  obtain k where "k < length ps" "findPlayerIndexFrom P 0 ps = int k" "ps ! k = Some p" "P p"
    by auto
  then show ?thesis by (simp add: findPlayerIndex_def seatAt_def)
qed

subsection \<open>The deck and the shuffle\<close>

lemma length_orderedDeck: "length orderedDeck = 52"
  by (simp add: orderedDeck_def)

lemma length_shuffleLoop: "length (shuffleLoop rnd i xs) = length xs"
  by (induction rnd i xs rule: shuffleLoop.induct) (simp_all add: Let_def)

lemma length_createDeck: "length (createDeck rnd) = 52"
  by (simp add: createDeck_def shuffleDeck_def length_shuffleLoop length_orderedDeck)

lemma mset_shuffleLoop:
  "validRnd rnd \<Longrightarrow> i < length xs \<Longrightarrow> mset (shuffleLoop rnd i xs) = mset xs"
proof (induction rnd i xs rule: shuffleLoop.induct)
  case (1 rnd newDeck)
  then show ?case by simp
next
  case (2 rnd i newDeck)
  have j: "rnd (Suc i) \<le> Suc i" using 2(2) by (simp add: validRnd_def)
  with 2(3) have jl: "rnd (Suc i) < length newDeck" by simp
  have "mset (newDeck[Suc i := newDeck ! rnd (Suc i), rnd (Suc i) := newDeck ! Suc i]) = mset newDeck"
    using mset_swap [OF jl 2(3)] .
  with 2 show ?case by (simp add: Let_def)
qed

lemma mset_createDeck: "validRnd rnd \<Longrightarrow> mset (createDeck rnd) = mset orderedDeck"
  by (simp add: createDeck_def shuffleDeck_def mset_shuffleLoop length_orderedDeck)

subsection \<open>Aborting modifiers\<close>

lemma performTransaction_abort:
  "st rid = Some s \<Longrightarrow> modifier s = Inr None \<Longrightarrow>
   performTransaction modifier rid ue st = Inr st"
  by (simp add: performTransaction_def)

lemma playCardModifier_turn:
  "currentTurnPlayerId s \<noteq> Some userId \<Longrightarrow> playCardModifier userId maxP c now s = Inr None"
  by (simp add: playCardModifier_def)

lemma playCardModifier_full:
  "maxP \<le> int (length (tableCards s)) \<Longrightarrow> playCardModifier userId maxP c now s = Inr None"
  by (simp add: playCardModifier_def)

lemma switchSeatModifier_occupied:
  "seatAt (players s) (int target) = Some q \<Longrightarrow> switchSeatModifier userId target s = Inr None"
  by (simp add: switchSeatModifier_def Let_def)

lemma dealingWrite_dealt:
  "phase gameState = DEALING_INITIAL \<Longrightarrow> deck gameState \<noteq> [] \<Longrightarrow>
   dealingWrite userId rid gameState cur fullDeck st = st"
  by (simp add: dealingWrite_def dealingEffect_def dealInitial_def)

subsection \<open>Dealing\<close>

lemma seatAt_setSeat_same:
  "0 \<le> i \<Longrightarrow> i < int (length ps) \<Longrightarrow> seatAt (setSeat ps i v) i = v"
  by (simp add: seatAt_def setSeat_def)

lemma seatAt_setSeat_other:
  "0 \<le> i \<Longrightarrow> i < int (length ps) \<Longrightarrow> j \<noteq> i \<Longrightarrow> seatAt (setSeat ps i v) j = seatAt ps j"
  by (auto simp: seatAt_def setSeat_def)

lemma length_setSeat:
  "0 \<le> i \<Longrightarrow> i < int (length ps) \<Longrightarrow> length (setSeat ps i v) = length ps"
  by (simp add: setSeat_def)

lemma dealInitial_guard:
  "dealInitial gameState cur fullDeck = Some s' \<Longrightarrow> deck gameState = []"
  by (simp add: dealInitial_def split: if_splits)

lemma dealingEffect_initial_guard:
  "phase gameState = DEALING_INITIAL \<Longrightarrow>
   dealingEffect userId gameState cur fullDeck = Some s' \<Longrightarrow> deck gameState = []"
  by (auto simp: dealingEffect_def split: if_splits dest: dealInitial_guard)

lemma dealInitial_result:
  assumes d: "deck gameState = []"
    and h: "findPlayer (\<lambda>p. Some (pid p) = hakimId gameState) (players gameState) = Some h"
  shows "dealInitial gameState cur fullDeck =
         Some (cur\<lparr>deck := drop 5 fullDeck,
                   players := setSeat (players gameState)
                      (findPlayerIndex (\<lambda>p. Some (pid p) = hakimId gameState) (players gameState))
                      (Some (h\<lparr>hand := take 5 fullDeck\<rparr>)),
                   phase := HAKIM_CHOOSING_SUIT\<rparr>)"
proof -
  from findPlayerIndex_some [OF h]
  have "0 \<le> findPlayerIndex (\<lambda>p. Some (pid p) = hakimId gameState) (players gameState)"
    and "seatAt (players gameState)
           (findPlayerIndex (\<lambda>p. Some (pid p) = hakimId gameState) (players gameState)) = Some h"
    by simp_all
  with d show ?thesis by (simp add: dealInitial_def Let_def slice_def)
qed

lemma hakimRoom_host: "isHost hakimRoom ''u1''"
  by (simp add: isHost_def hostId_def hakimRoom_def emptyHands2_def seat_def)

lemma hakimRoom_hakim:
  "findPlayer (\<lambda>p. Some (pid p) = hakimId hakimRoom) (players hakimRoom) = Some (seat ''u1'' 1 [])"
  by (simp add: hakimRoom_def emptyHands2_def seat_def)

lemma hakimRoom_index:
  "findPlayerIndex (\<lambda>p. Some (pid p) = hakimId hakimRoom) (players hakimRoom) = 0"
  by (simp add: hakimRoom_def emptyHands2_def seat_def findPlayerIndex_def)

lemma dealRemainder_2p_0:
  assumes "mode gs = Mode2p" "players gs = [Some a, Some b]"
    "findPlayerIndex (\<lambda>p. Some (pid p) = hakimId gs) (players gs) = 0"
    "length (hand a) = 5"
  shows "dealRemainder gs cur =
     Some (cur\<lparr>players := [Some (a\<lparr>hand := hand a @ slice 0 8 (deck gs)\<rparr>),
                             Some (b\<lparr>hand := slice 8 21 (deck gs)\<rparr>)],
               phase := PLAYING, currentTurnPlayerId := hakimId gs\<rparr>)"
  using assms
  by (simp add: dealRemainder_def Let_def giveHand_def giveHakimExtra_def seatAt_def setSeat_def)

lemma dealRemainder_2p_1:
  assumes "mode gs = Mode2p" "players gs = [Some a, Some b]"
    "findPlayerIndex (\<lambda>p. Some (pid p) = hakimId gs) (players gs) = 1"
    "length (hand b) = 5"
  shows "dealRemainder gs cur =
     Some (cur\<lparr>players := [Some (a\<lparr>hand := slice 8 21 (deck gs)\<rparr>),
                             Some (b\<lparr>hand := hand b @ slice 0 8 (deck gs)\<rparr>)],
               phase := PLAYING, currentTurnPlayerId := hakimId gs\<rparr>)"
  using assms
  by (simp add: dealRemainder_def Let_def giveHand_def giveHakimExtra_def seatAt_def setSeat_def)

lemma dealRemainder_4p_0:
  assumes "mode gs = Mode4p" "players gs = [Some p0, Some p1, Some p2, Some p3]"
    "findPlayerIndex (\<lambda>p. Some (pid p) = hakimId gs) (players gs) = 0"
    "length (hand p0) = 5"
  shows "dealRemainder gs cur =
     Some (cur\<lparr>players := [Some (p0\<lparr>hand := hand p0 @ slice 39 47 (deck gs)\<rparr>),
                             Some (p1\<lparr>hand := slice 0 13 (deck gs)\<rparr>),
                             Some (p2\<lparr>hand := slice 13 26 (deck gs)\<rparr>),
                             Some (p3\<lparr>hand := slice 26 39 (deck gs)\<rparr>)],
               phase := PLAYING, currentTurnPlayerId := hakimId gs\<rparr>)"
  using assms
  by (simp add: dealRemainder_def Let_def giveHand_def giveHakimExtra_def seatAt_def setSeat_def
      jsRem_def)

lemma dealRemainder_4p_1:
  assumes "mode gs = Mode4p" "players gs = [Some p0, Some p1, Some p2, Some p3]"
    "findPlayerIndex (\<lambda>p. Some (pid p) = hakimId gs) (players gs) = 1"
    "length (hand p1) = 5"
  shows "dealRemainder gs cur =
     Some (cur\<lparr>players := [Some (p0\<lparr>hand := slice 26 39 (deck gs)\<rparr>),
                             Some (p1\<lparr>hand := hand p1 @ slice 39 47 (deck gs)\<rparr>),
                             Some (p2\<lparr>hand := slice 0 13 (deck gs)\<rparr>),
                             Some (p3\<lparr>hand := slice 13 26 (deck gs)\<rparr>)],
               phase := PLAYING, currentTurnPlayerId := hakimId gs\<rparr>)"
  using assms
  by (simp add: dealRemainder_def Let_def giveHand_def giveHakimExtra_def seatAt_def setSeat_def
      jsRem_def)

lemma dealRemainder_4p_2:
  assumes "mode gs = Mode4p" "players gs = [Some p0, Some p1, Some p2, Some p3]"
    "findPlayerIndex (\<lambda>p. Some (pid p) = hakimId gs) (players gs) = 2"
    "length (hand p2) = 5"
  shows "dealRemainder gs cur =
     Some (cur\<lparr>players := [Some (p0\<lparr>hand := slice 13 26 (deck gs)\<rparr>),
                             Some (p1\<lparr>hand := slice 26 39 (deck gs)\<rparr>),
                             Some (p2\<lparr>hand := hand p2 @ slice 39 47 (deck gs)\<rparr>),
                             Some (p3\<lparr>hand := slice 0 13 (deck gs)\<rparr>)],
               phase := PLAYING, currentTurnPlayerId := hakimId gs\<rparr>)"
  using assms
  by (simp add: dealRemainder_def Let_def giveHand_def giveHakimExtra_def seatAt_def setSeat_def
      jsRem_def)

lemma dealRemainder_4p_3:
  assumes "mode gs = Mode4p" "players gs = [Some p0, Some p1, Some p2, Some p3]"
    "findPlayerIndex (\<lambda>p. Some (pid p) = hakimId gs) (players gs) = 3"
    "length (hand p3) = 5"
  shows "dealRemainder gs cur =
     Some (cur\<lparr>players := [Some (p0\<lparr>hand := slice 0 13 (deck gs)\<rparr>),
                             Some (p1\<lparr>hand := slice 13 26 (deck gs)\<rparr>),
                             Some (p2\<lparr>hand := slice 26 39 (deck gs)\<rparr>),
                             Some (p3\<lparr>hand := hand p3 @ slice 39 47 (deck gs)\<rparr>)],
               phase := PLAYING, currentTurnPlayerId := hakimId gs\<rparr>)"
  using assms
  by (simp add: dealRemainder_def Let_def giveHand_def giveHakimExtra_def seatAt_def setSeat_def
      jsRem_def)

lemma seatAt2:
  "seatAt [x0, x1] j = (if j = 0 then x0 else if j = 1 then x1 else None)"
  by (auto simp: seatAt_def nth_Cons' nat_eq_iff)

lemma seatAt4:
  "seatAt [x0, x1, x2, x3] j =
     (if j = 0 then x0 else if j = 1 then x1 else if j = 2 then x2 else if j = 3 then x3 else None)"
  by (auto simp: seatAt_def nth_Cons' nat_eq_iff)

lemma list2_Some:
  assumes "length ps = 2" "None \<notin> set ps"
  shows "\<exists>a b. ps = [Some a, Some b]"
proof -
  from assms(1) obtain x y where p: "ps = [x, y]"
    by (cases ps; cases "tl ps") auto
  with assms(2) obtain a b where "x = Some a" "y = Some b" by (cases x; cases y) auto
  with p show ?thesis by simp
qed

lemma list4_Some:
  assumes "length ps = 4" "None \<notin> set ps"
  shows "\<exists>a b c d. ps = [Some a, Some b, Some c, Some d]"
proof -
  from assms(1) obtain x y z w where p: "ps = [x, y, z, w]"
    by (auto simp: length_Suc_conv numeral_eq_Suc)
  with assms(2) obtain a b c d where "x = Some a" "y = Some b" "z = Some c" "w = Some d"
    by (cases x; cases y; cases z; cases w) auto
  with p show ?thesis by simp
qed

lemma dealingEffect_remainder:
  "isHost gs userId \<Longrightarrow> phase gs = DEALING_REMAINDER \<Longrightarrow>
   dealingEffect userId gs cur fullDeck = dealRemainder gs cur"
  by (simp add: dealingEffect_def)

lemma slice_len: "b \<le> length xs \<Longrightarrow> length (slice a b xs) = b - a"
  by (simp add: slice_def)

lemma room2_facts:
  "isHost (dealtRoom Mode2p seats2 DEALING_REMAINDER) ''u1''"
  "phase (dealtRoom Mode2p seats2 DEALING_REMAINDER) = DEALING_REMAINDER"
  "int (length (players (dealtRoom Mode2p seats2 DEALING_REMAINDER)))
     = maxPlayers (mode (dealtRoom Mode2p seats2 DEALING_REMAINDER))"
  "None \<notin> set (players (dealtRoom Mode2p seats2 DEALING_REMAINDER))"
  "findPlayer (\<lambda>p. Some (pid p) = hakimId (dealtRoom Mode2p seats2 DEALING_REMAINDER))
     (players (dealtRoom Mode2p seats2 DEALING_REMAINDER)) = Some (seat ''u1'' 1 (take 5 orderedDeck))"
  "length (hand (seat ''u1'' 1 (take 5 orderedDeck))) = 5"
  "0 = findPlayerIndex (\<lambda>p. Some (pid p) = hakimId (dealtRoom Mode2p seats2 DEALING_REMAINDER))
     (players (dealtRoom Mode2p seats2 DEALING_REMAINDER))"
  "length (deck (dealtRoom Mode2p seats2 DEALING_REMAINDER)) = 47"
  by (simp_all add: dealtRoom_def newRoom_def seats2_def seat_def isHost_def hostId_def
      maxPlayers_def findPlayerIndex_def length_orderedDeck)

lemma room4_facts:
  "isHost (dealtRoom Mode4p seats4 DEALING_REMAINDER) ''u0''"
  "phase (dealtRoom Mode4p seats4 DEALING_REMAINDER) = DEALING_REMAINDER"
  "int (length (players (dealtRoom Mode4p seats4 DEALING_REMAINDER)))
     = maxPlayers (mode (dealtRoom Mode4p seats4 DEALING_REMAINDER))"
  "None \<notin> set (players (dealtRoom Mode4p seats4 DEALING_REMAINDER))"
  "findPlayer (\<lambda>p. Some (pid p) = hakimId (dealtRoom Mode4p seats4 DEALING_REMAINDER))
     (players (dealtRoom Mode4p seats4 DEALING_REMAINDER)) = Some (seat ''u1'' 2 (take 5 orderedDeck))"
  "length (hand (seat ''u1'' 2 (take 5 orderedDeck))) = 5"
  "1 = findPlayerIndex (\<lambda>p. Some (pid p) = hakimId (dealtRoom Mode4p seats4 DEALING_REMAINDER))
     (players (dealtRoom Mode4p seats4 DEALING_REMAINDER))"
  "length (deck (dealtRoom Mode4p seats4 DEALING_REMAINDER)) = 47"
  by (simp_all add: dealtRoom_def newRoom_def seats4_def seat_def isHost_def hostId_def
      maxPlayers_def findPlayerIndex_def length_orderedDeck)

lemma room2_deal:
  "dealingEffect ''u1'' (dealtRoom Mode2p seats2 DEALING_REMAINDER)
     (dealtRoom Mode2p seats2 DEALING_REMAINDER) fullDeck =
   Some ((dealtRoom Mode2p seats2 DEALING_REMAINDER)
     \<lparr>players := [Some ((seat ''u1'' 1 (take 5 orderedDeck))
                     \<lparr>hand := take 5 orderedDeck @ slice 0 8 (drop 5 orderedDeck)\<rparr>),
                  Some ((seat ''u2'' 2 [])\<lparr>hand := slice 8 21 (drop 5 orderedDeck)\<rparr>)],
      phase := PLAYING, currentTurnPlayerId := Some ''u1''\<rparr>)"
proof -
  let ?R = "dealtRoom Mode2p seats2 DEALING_REMAINDER"
  have m: "mode ?R = Mode2p" by (simp add: dealtRoom_def newRoom_def)
  have ps: "players ?R = [Some (seat ''u1'' 1 (take 5 orderedDeck)), Some (seat ''u2'' 2 [])]"
    by (simp add: dealtRoom_def seats2_def)
  have "dealRemainder ?R ?R = Some (?R
     \<lparr>players := [Some ((seat ''u1'' 1 (take 5 orderedDeck))
                     \<lparr>hand := hand (seat ''u1'' 1 (take 5 orderedDeck)) @ slice 0 8 (deck ?R)\<rparr>),
                  Some ((seat ''u2'' 2 [])\<lparr>hand := slice 8 21 (deck ?R)\<rparr>)],
      phase := PLAYING, currentTurnPlayerId := hakimId ?R\<rparr>)"
    using dealRemainder_2p_0 [OF m ps room2_facts(7) [symmetric] room2_facts(6)] .
  moreover have "deck ?R = drop 5 orderedDeck" "hakimId ?R = Some ''u1''"
    "hand (seat ''u1'' 1 (take 5 orderedDeck)) = take 5 orderedDeck"
    by (simp_all add: dealtRoom_def newRoom_def seat_def)
  ultimately show ?thesis
    using dealingEffect_remainder [OF room2_facts(1) room2_facts(2)] by simp
qed

subsection \<open>Playing a card\<close>

lemma jsRem_nonneg: "0 \<le> a \<Longrightarrow> 0 < b \<Longrightarrow> jsRem a b = a mod b"
  by (cases "a = 0") (simp_all add: jsRem_def)

lemma maxPlayers_pos: "0 < maxPlayers m"
  by (simp add: maxPlayers_def)

lemma pid_seatAt_setSeat_hand:
  assumes "0 \<le> i" "i < int (length ps)" "seatAt ps i = Some p"
  shows "map_option pid (seatAt (setSeat ps i (Some (p\<lparr>hand := h\<rparr>))) j) = map_option pid (seatAt ps j)"
proof (cases "j = i")
  case True
  with assms show ?thesis by (simp add: seatAt_setSeat_same)
next
  case False
  with assms show ?thesis by (simp add: seatAt_setSeat_other)
qed

lemma playCardModifier_ok:
  assumes turn: "currentTurnPlayerId s = Some userId"
    and room: "int (length (tableCards s)) < maxP"
    and pos: "0 < maxP"
    and seated: "findPlayer (\<lambda>p. pid p = userId) (players s) = Some player"
  shows "playCardModifier userId maxP c now s =
     Inr (Some (s\<lparr>players := setSeat (players s) (findPlayerIndex (\<lambda>p. pid p = userId) (players s))
                               (Some (player\<lparr>hand := filter (\<lambda>x. cid x \<noteq> cid c) (hand player)\<rparr>)),
                   tableCards := tableCards s @ [\<lparr>playerId = userId, card_t = c\<rparr>],
                   lastActionTimestamp := Some now,
                   currentTurnPlayerId := map_option pid (seatAt (players s)
                      ((findPlayerIndex (\<lambda>p. pid p = userId) (players s) + 1) mod maxP))\<rparr>))"
proof -
  let ?i = "findPlayerIndex (\<lambda>p. pid p = userId) (players s)"
  from findPlayerIndex_some [OF seated]
  have r: "0 \<le> ?i" "?i < int (length (players s))" "seatAt (players s) ?i = Some player"
    by simp_all
  from r(1) have ne: "?i \<noteq> -1" by simp
  have j: "jsRem (?i + 1) maxP = (?i + 1) mod maxP"
    using r(1) pos by (simp add: jsRem_nonneg)
  show ?thesis
    using turn room ne r(3) j pid_seatAt_setSeat_hand [OF r]
    by (simp add: playCardModifier_def Let_def)
qed

lemma playRoom_facts:
  "phase playRoom = PLAYING"
  "[''r1'' \<mapsto> playRoom] ''r1'' = Some playRoom"
  "''r1'' \<noteq> []"
  "0 = findPlayerIndex (\<lambda>p. pid p = ''u1'') (players playRoom)"
  by (simp_all add: playRoom_def newRoom_def seat_def findPlayerIndex_def)

lemma playRoom_u1:
  "currentTurnPlayerId playRoom = Some ''u1''"
  "int (length (tableCards playRoom)) < maxPlayers (mode playRoom)"
  "tableCards playRoom = []"
  "findPlayer (\<lambda>p. pid p = ''u1'') (players playRoom)
     = Some (seat ''u1'' 1 [mkCard Spades 2 ''S-2'', mkCard Hearts 5 ''H-5''])"
  by (simp_all add: playRoom_def newRoom_def seat_def maxPlayers_def)

lemma playRoom_play:
  "handlePlayCard playRoom ''u1'' c now ''r1'' None [''r1'' \<mapsto> playRoom] =
   Inr [''r1'' \<mapsto> playRoom
     \<lparr>players := [Some (seat ''u1'' 1
                    (filter (\<lambda>x. cid x \<noteq> cid c) [mkCard Spades 2 ''S-2'', mkCard Hearts 5 ''H-5''])),
                  Some (seat ''u2'' 2 [mkCard Spades 9 ''S-9'', mkCard Diamonds 3 ''D-3''])],
      tableCards := [\<lparr>playerId = ''u1'', card_t = c\<rparr>],
      lastActionTimestamp := Some now,
      currentTurnPlayerId := Some ''u2''\<rparr>]"
proof -
  have m: "playCardModifier ''u1'' 2 c now playRoom = Inr (Some (playRoom
     \<lparr>players := [Some (seat ''u1'' 1
                    (filter (\<lambda>x. cid x \<noteq> cid c) [mkCard Spades 2 ''S-2'', mkCard Hearts 5 ''H-5''])),
                  Some (seat ''u2'' 2 [mkCard Spades 9 ''S-9'', mkCard Diamonds 3 ''D-3''])],
      tableCards := [\<lparr>playerId = ''u1'', card_t = c\<rparr>],
      lastActionTimestamp := Some now,
      currentTurnPlayerId := Some ''u2''\<rparr>))"
    by (simp add: playCardModifier_def playRoom_def newRoom_def seat_def findPlayerIndex_def
        seatAt_def setSeat_def jsRem_def Let_def)
  have "handlePlayCard playRoom ''u1'' c now ''r1'' None [''r1'' \<mapsto> playRoom] =
        performTransaction (playCardModifier ''u1'' 2 c now) ''r1'' None [''r1'' \<mapsto> playRoom]"
    using playRoom_u1 by (simp add: handlePlayCard_def maxPlayers_def Let_def playRoom_def newRoom_def)
  then show ?thesis by (simp add: performTransaction_def m)
qed

subsection \<open>Resolving a trick\<close>

lemma findPlayerIndex_lower: "-1 \<le> findPlayerIndex P ps"
proof (cases "findPlayer P ps")
  case None
  then show ?thesis by (simp add: findPlayerIndex_none)
next
  case (Some p)
  from findPlayerIndex_some [OF Some] show ?thesis by simp
qed

lemma nextHakimId_mod:
  "nextHakimId s (maxPlayers (mode s)) =
     map_option pid (seatAt (players s)
       ((findPlayerIndex (\<lambda>p. Some (pid p) = hakimId s) (players s) + 1) mod maxPlayers (mode s)))"
proof -
  have "0 \<le> findPlayerIndex (\<lambda>p. Some (pid p) = hakimId s) (players s) + 1"
    using findPlayerIndex_lower [of "\<lambda>p. Some (pid p) = hakimId s" "players s"] by simp
  then show ?thesis
    by (simp add: nextHakimId_def Let_def jsRem_nonneg maxPlayers_pos)
qed

lemma isHakimTeam_cong:
  "players a = players b \<Longrightarrow> hakimId a = hakimId b \<Longrightarrow> isHakimTeam a t = isHakimTeam b t"
  by (simp add: isHakimTeam_def)

lemma scoresAfter_cong:
  "players a = players b \<Longrightarrow> hakimId a = hakimId b \<Longrightarrow> scores a = scores b \<Longrightarrow>
   scoresAfter a crt = scoresAfter b crt"
  by (simp add: scoresAfter_def handPoints_def isHakimTeam_def)

lemma nextHakimId_cong:
  "players a = players b \<Longrightarrow> hakimId a = hakimId b \<Longrightarrow> nextHakimId a m = nextHakimId b m"
  by (simp add: nextHakimId_def)

lemma finishTrick_short: 
  "int (length (tableCards s)) < maxPlayers (mode s) \<Longrightarrow> finishTrickModifier s = Inr None"
  by (simp add: finishTrickModifier_def Let_def)

lemma finishTrick_nowinner:
  assumes "determineTrickWinner (tableCards s) (hokm s) (suit (card_t (hd (tableCards s)))) = Inr w"
    and "findPlayer (\<lambda>p. pid p = w) (players s) = None"
  shows "finishTrickModifier s = Inr None"
  using assms by (simp add: finishTrickModifier_def Let_def)

lemma finishTrick_continue:
  assumes "maxPlayers (mode s) \<le> int (length (tableCards s))"
    and "determineTrickWinner (tableCards s) (hokm s) (suit (card_t (hd (tableCards s)))) = Inr w"
    and "findPlayer (\<lambda>p. pid p = w) (players s) = Some wp"
    and "\<not> handOver (tricksAfter s (teamId wp))"
  shows "finishTrickModifier s =
     Inr (Some (s\<lparr>currentRoundTricks := tricksAfter s (teamId wp), lastWinnerId := Some w,
                   currentTurnPlayerId := Some w, tableCards := []\<rparr>))"
  using assms by (simp add: finishTrickModifier_def Let_def)

lemma finishTrick_matchEnd:
  assumes "maxPlayers (mode s) \<le> int (length (tableCards s))"
    and "determineTrickWinner (tableCards s) (hokm s) (suit (card_t (hd (tableCards s)))) = Inr w"
    and "findPlayer (\<lambda>p. pid p = w) (players s) = Some wp"
    and "handOver (tricksAfter s (teamId wp))"
    and "atLeast7 (scoresAfter s (tricksAfter s (teamId wp)))
           (handWinnerTeamId (tricksAfter s (teamId wp)))"
  shows "finishTrickModifier s =
     Inr (Some (s\<lparr>currentRoundTricks := tricksAfter s (teamId wp), lastWinnerId := Some w,
                   currentTurnPlayerId := Some w,
                   scores := scoresAfter s (tricksAfter s (teamId wp)),
                   phase := MATCH_END,
                   logs := logs s @ [matchEndLog (handWinnerTeamId (tricksAfter s (teamId wp)))]\<rparr>))"
proof -
  let ?crt = "tricksAfter s (teamId wp)"
  let ?rd1 = "s\<lparr>currentRoundTricks := ?crt, lastWinnerId := Some w, currentTurnPlayerId := Some w\<rparr>"
  have sc: "scoresAfter ?rd1 ?crt = scoresAfter s ?crt" by (rule scoresAfter_cong) simp_all
  show ?thesis using assms by (simp add: finishTrickModifier_def Let_def sc)
qed

lemma finishTrick_handEnd:
  assumes "maxPlayers (mode s) \<le> int (length (tableCards s))"
    and "determineTrickWinner (tableCards s) (hokm s) (suit (card_t (hd (tableCards s)))) = Inr w"
    and "findPlayer (\<lambda>p. pid p = w) (players s) = Some wp"
    and "handOver (tricksAfter s (teamId wp))"
    and "\<not> atLeast7 (scoresAfter s (tricksAfter s (teamId wp)))
           (handWinnerTeamId (tricksAfter s (teamId wp)))"
  shows "finishTrickModifier s =
     Inr (Some (s\<lparr>lastWinnerId := Some w,
                   currentTurnPlayerId := Some w,
                   scores := scoresAfter s (tricksAfter s (teamId wp)),
                   phase := DEALING_INITIAL, deck := [], tableCards := [],
                   currentRoundTricks := [1 \<mapsto> 0, 2 \<mapsto> 0],
                   hakimId := (if \<not> isHakimTeam s (handWinnerTeamId (tricksAfter s (teamId wp)))
                               then nextHakimId s (maxPlayers (mode s)) else hakimId s),
                   hokm := None, hakimDeterminationCards := [],
                   logs := logs s @ [handEndLog (scoresAfter s (tricksAfter s (teamId wp)))]\<rparr>))"
proof -
  let ?crt = "tricksAfter s (teamId wp)"
  let ?rd1 = "s\<lparr>currentRoundTricks := ?crt, lastWinnerId := Some w, currentTurnPlayerId := Some w\<rparr>"
  let ?rd2 = "?rd1\<lparr>scores := scoresAfter s ?crt\<rparr>"
  have sc: "scoresAfter ?rd1 ?crt = scoresAfter s ?crt" by (rule scoresAfter_cong) simp_all
  have ih: "isHakimTeam ?rd2 t = isHakimTeam s t" for t by (rule isHakimTeam_cong) simp_all
  have nh: "nextHakimId ?rd2 m = nextHakimId s m" for m by (rule nextHakimId_cong) simp_all
  show ?thesis using assms by (simp add: finishTrickModifier_def Let_def sc ih nh)
qed

lemma lostHandRoom_facts:
  "maxPlayers (mode lostHandRoom) \<le> int (length (tableCards lostHandRoom))"
  "determineTrickWinner (tableCards lostHandRoom) (hokm lostHandRoom)
     (suit (card_t (hd (tableCards lostHandRoom)))) = Inr ''u2''"
  "findPlayer (\<lambda>p. pid p = ''u2'') (players lostHandRoom)
     = Some (seat ''u2'' 2 [mkCard Spades 9 ''S-9'', mkCard Diamonds 3 ''D-3''])"
  "[1 \<mapsto> 3, 2 \<mapsto> 7] = tricksAfter lostHandRoom
      (teamId (seat ''u2'' 2 [mkCard Spades 9 ''S-9'', mkCard Diamonds 3 ''D-3'']))"
  "handOver [1 \<mapsto> 3, 2 \<mapsto> 7]"
  "2 = handWinnerTeamId [1 \<mapsto> 3, 2 \<mapsto> 7]"
  "\<not> atLeast7 (scoresAfter lostHandRoom [1 \<mapsto> 3, 2 \<mapsto> 7]) 2"
  "0 = findPlayerIndex (\<lambda>p. Some (pid p) = hakimId lostHandRoom) (players lostHandRoom)"
  "\<not> isHakimTeam lostHandRoom 2"
  by (auto simp: lostHandRoom_def fullTableRoom_def playRoom_def newRoom_def seat_def mkCard_def
      maxPlayers_def determineTrickWinner_def trickStep_def Let_def tricksAfter_def orZero_def
      handOver_def atLeast7_def handWinnerTeamId_def scoresAfter_def handPoints_def
      calculateRoundPoints_def isHakimTeam_def findPlayerIndex_def)

lemma wonHandRoom_facts:
  "maxPlayers (mode wonHandRoom) \<le> int (length (tableCards wonHandRoom))"
  "determineTrickWinner (tableCards wonHandRoom) (hokm wonHandRoom)
     (suit (card_t (hd (tableCards wonHandRoom)))) = Inr ''u1''"
  "findPlayer (\<lambda>p. pid p = ''u1'') (players wonHandRoom)
     = Some (seat ''u1'' 1 [mkCard Spades 2 ''S-2'', mkCard Hearts 5 ''H-5''])"
  "[1 \<mapsto> 7, 2 \<mapsto> 3] = tricksAfter wonHandRoom
      (teamId (seat ''u1'' 1 [mkCard Spades 2 ''S-2'', mkCard Hearts 5 ''H-5'']))"
  "handOver [1 \<mapsto> 7, 2 \<mapsto> 3]"
  "1 = handWinnerTeamId [1 \<mapsto> 7, 2 \<mapsto> 3]"
  "\<not> atLeast7 (scoresAfter wonHandRoom [1 \<mapsto> 7, 2 \<mapsto> 3]) 1"
  "0 = findPlayerIndex (\<lambda>p. Some (pid p) = hakimId wonHandRoom) (players wonHandRoom)"
  "isHakimTeam wonHandRoom 1"
  by (auto simp: wonHandRoom_def playRoom_def newRoom_def seat_def mkCard_def
      maxPlayers_def determineTrickWinner_def trickStep_def Let_def tricksAfter_def orZero_def
      handOver_def atLeast7_def handWinnerTeamId_def scoresAfter_def handPoints_def
      calculateRoundPoints_def isHakimTeam_def findPlayerIndex_def)

subsection \<open>Scores and phase under transactions\<close>

lemma playCardModifier_keeps:
  "playCardModifier u m c n s = Inr (Some s') \<Longrightarrow> scores s' = scores s \<and> phase s' = phase s"
  by (auto simp: playCardModifier_def Let_def split: if_splits option.splits)

lemma joinRoomModifier_keeps:
  "joinRoomModifier u nm s = Inr (Some s') \<Longrightarrow> scores s' = scores s \<and> phase s' = phase s"
  by (auto simp: joinRoomModifier_def Let_def split: if_splits option.splits)

lemma switchSeatModifier_keeps:
  "switchSeatModifier u i s = Inr (Some s') \<Longrightarrow> scores s' = scores s \<and> phase s' = phase s"
  by (auto simp: switchSeatModifier_def Let_def split: if_splits option.splits)

lemma presenceModifier_keeps:
  "presenceModifier u s = Inr (Some s') \<Longrightarrow> scores s' = scores s \<and> phase s' = phase s"
  by (auto simp: presenceModifier_def Let_def split: if_splits option.splits)

lemma finishTrick_outcome:
  assumes "finishTrickModifier s = Inr (Some s')"
  shows "(scores s' = scores s \<and> phase s' = phase s)
     \<or> (\<exists>crt. handOver crt \<and> scores s' = scoresAfter s crt
           \<and> (if atLeast7 (scoresAfter s crt) (handWinnerTeamId crt)
               then phase s' = MATCH_END else phase s' = DEALING_INITIAL))"
proof (cases "int (length (tableCards s)) < maxPlayers (mode s)")
  case True
  with assms finishTrick_short show ?thesis by simp
next
  case False
  then have full: "maxPlayers (mode s) \<le> int (length (tableCards s))" by simp
  show ?thesis
  proof (cases "determineTrickWinner (tableCards s) (hokm s) (suit (card_t (hd (tableCards s))))")
    case (Inl e)
    with assms full show ?thesis by (simp add: finishTrickModifier_def Let_def)
  next
    case (Inr w)
    show ?thesis
    proof (cases "findPlayer (\<lambda>p. pid p = w) (players s)")
      case None
      with assms finishTrick_nowinner [OF Inr] show ?thesis by simp
    next
      case (Some wp)
      let ?crt = "tricksAfter s (teamId wp)"
      show ?thesis
      proof (cases "handOver ?crt")
        case False
        from finishTrick_continue [OF full Inr Some False] assms show ?thesis by auto
      next
        case True
        show ?thesis
        proof (cases "atLeast7 (scoresAfter s ?crt) (handWinnerTeamId ?crt)")
          case a: True
          from finishTrick_matchEnd [OF full Inr Some True a] assms
          have "scores s' = scoresAfter s ?crt" "phase s' = MATCH_END" by auto
          with True a show ?thesis by auto
        next
          case a: False
          from finishTrick_handEnd [OF full Inr Some True a] assms
          have "scores s' = scoresAfter s ?crt" "phase s' = DEALING_INITIAL" by auto
          with True a show ?thesis by auto
        qed
      qed
    qed
  qed
qed

lemma applyTxn_outcome:
  "(scores (applyTxn x s) = scores s \<and> phase (applyTxn x s) = phase s)
     \<or> (\<exists>crt. handOver crt \<and> scores (applyTxn x s) = scoresAfter s crt
           \<and> (if atLeast7 (scoresAfter s crt) (handWinnerTeamId crt)
               then phase (applyTxn x s) = MATCH_END else phase (applyTxn x s) = DEALING_INITIAL))"
proof (cases "txnModifier x s")
  case (Inl e)
  then show ?thesis by (simp add: applyTxn_def)
next
  case (Inr r)
  show ?thesis
  proof (cases r)
    case None
    with Inr show ?thesis by (simp add: applyTxn_def)
  next
    case (Some s')
    with Inr have a: "applyTxn x s = s'" and m: "txnModifier x s = Inr (Some s')"
      by (simp_all add: applyTxn_def)
    show ?thesis
    proof (cases x)
      case (PlayCard u mp c n)
      with m playCardModifier_keeps [of u mp c n s s'] a show ?thesis by simp
    next
      case FinishTrick
      with m have "finishTrickModifier s = Inr (Some s')" by simp
      then show ?thesis unfolding a by (rule finishTrick_outcome)
    next
      case (JoinRoom u nm)
      with m joinRoomModifier_keeps [of u nm s s'] a show ?thesis by simp
    next
      case (SwitchSeat u i)
      with m switchSeatModifier_keeps [of u i s s'] a show ?thesis by simp
    next
      case (Presence u)
      with m presenceModifier_keeps [of u s s'] a show ?thesis by simp
    qed
  qed
qed

lemma handPoints_range: "handPoints s crt \<in> {1, 2, 3}"
  by (simp add: handPoints_def calculateRoundPoints_def Let_def)

lemma scoresAfter_eq:
  "scoresAfter s crt =
     (scores s)(handWinnerTeamId crt \<mapsto> orZero (scores s) (handWinnerTeamId crt) + handPoints s crt)"
  by (simp add: scoresAfter_def Let_def)

lemma orZero_scoresAfter:
  "orZero (scoresAfter s crt) t =
     (if t = handWinnerTeamId crt then orZero (scores s) t + handPoints s crt
      else orZero (scores s) t)"
  by (simp add: scoresAfter_eq orZero_def)

lemma atLeast7_scoresAfter:
  "atLeast7 (scoresAfter s crt) (handWinnerTeamId crt)
     \<longleftrightarrow> 7 \<le> orZero (scoresAfter s crt) (handWinnerTeamId crt)"
  by (simp add: scoresAfter_eq orZero_def atLeast7_def)

lemma applyTxn_mono: "scoreOf s t \<le> scoreOf (applyTxn x s) t"
proof -
  from applyTxn_outcome [of x s] show ?thesis
  proof
    assume "scores (applyTxn x s) = scores s \<and> phase (applyTxn x s) = phase s"
    then show ?thesis by (simp add: scoreOf_def)
  next
    assume "\<exists>crt. handOver crt \<and> scores (applyTxn x s) = scoresAfter s crt
           \<and> (if atLeast7 (scoresAfter s crt) (handWinnerTeamId crt)
               then phase (applyTxn x s) = MATCH_END else phase (applyTxn x s) = DEALING_INITIAL)"
    then obtain crt where "scores (applyTxn x s) = scoresAfter s crt" by blast
    then show ?thesis using handPoints_range [of s crt]
      by (auto simp: scoreOf_def orZero_scoresAfter)
  qed
qed

lemma runTxns_mono: "scoreOf s t \<le> scoreOf (runTxns xs s) t"
proof (induction xs arbitrary: s)
  case Nil
  then show ?case by simp
next
  case (Cons x xs)
  have "scoreOf s t \<le> scoreOf (applyTxn x s) t" by (rule applyTxn_mono)
  also have "\<dots> \<le> scoreOf (runTxns xs (applyTxn x s)) t" by (rule Cons.IH)
  finally show ?case by simp
qed

lemma runTxns_snoc: "runTxns (xs @ [x]) s = applyTxn x (runTxns xs s)"
  by (induction xs arbitrary: s) simp_all

lemma applyTxn_awarded:
  "scores (applyTxn x s) = scores s
   \<or> (\<exists>team points. points \<in> {1, 2, 3}
         \<and> scores (applyTxn x s) = (scores s)(team \<mapsto> scoreOf s team + points))"
proof -
  from applyTxn_outcome [of x s] show ?thesis
  proof
    assume "scores (applyTxn x s) = scores s \<and> phase (applyTxn x s) = phase s"
    then show ?thesis by simp
  next
    assume "\<exists>crt. handOver crt \<and> scores (applyTxn x s) = scoresAfter s crt
           \<and> (if atLeast7 (scoresAfter s crt) (handWinnerTeamId crt)
               then phase (applyTxn x s) = MATCH_END else phase (applyTxn x s) = DEALING_INITIAL)"
    then obtain crt where c: "scores (applyTxn x s) = scoresAfter s crt" by blast
    have "handPoints s crt \<in> {1, 2, 3} \<and> scores (applyTxn x s) =
       (scores s)(handWinnerTeamId crt \<mapsto> scoreOf s (handWinnerTeamId crt) + handPoints s crt)"
      using c handPoints_range [of s crt] by (simp add: scoresAfter_eq scoreOf_def)
    then show ?thesis by blast
  qed
qed

lemma applyTxn_matchEnd:
  assumes p: "phase s \<noteq> MATCH_END" and lt: "\<forall>t. scoreOf s t < 7"
  shows "phase (applyTxn x s) = MATCH_END \<longleftrightarrow> (\<exists>t. 7 \<le> scoreOf (applyTxn x s) t)"
proof -
  from applyTxn_outcome [of x s] show ?thesis
  proof
    assume a: "scores (applyTxn x s) = scores s \<and> phase (applyTxn x s) = phase s"
    then have "scoreOf (applyTxn x s) t = scoreOf s t" for t by (simp add: scoreOf_def)
    with a p lt show ?thesis by (auto simp: not_le)
  next
    assume "\<exists>crt. handOver crt \<and> scores (applyTxn x s) = scoresAfter s crt
           \<and> (if atLeast7 (scoresAfter s crt) (handWinnerTeamId crt)
               then phase (applyTxn x s) = MATCH_END else phase (applyTxn x s) = DEALING_INITIAL)"
    then obtain crt where c: "scores (applyTxn x s) = scoresAfter s crt"
      and ph: "if atLeast7 (scoresAfter s crt) (handWinnerTeamId crt)
               then phase (applyTxn x s) = MATCH_END else phase (applyTxn x s) = DEALING_INITIAL"
      by blast
    have other: "scoreOf (applyTxn x s) t < 7" if "t \<noteq> handWinnerTeamId crt" for t
      using that lt c by (simp add: scoreOf_def orZero_scoresAfter)
    show ?thesis
    proof (cases "atLeast7 (scoresAfter s crt) (handWinnerTeamId crt)")
      case True
      with ph have "phase (applyTxn x s) = MATCH_END" by simp
      moreover from True c have "7 \<le> scoreOf (applyTxn x s) (handWinnerTeamId crt)"
        by (simp add: atLeast7_scoresAfter scoreOf_def)
      ultimately show ?thesis by blast
    next
      case False
      with ph have "phase (applyTxn x s) \<noteq> MATCH_END" by simp
      moreover from False c have "scoreOf (applyTxn x s) (handWinnerTeamId crt) < 7"
        by (simp add: atLeast7_scoresAfter scoreOf_def)
      with other have "\<forall>t. scoreOf (applyTxn x s) t < 7" by metis
      ultimately show ?thesis by (auto simp: not_le)
    qed
  qed
qed

lemma matchPointRoom_facts:
  "maxPlayers (mode matchPointRoom) \<le> int (length (tableCards matchPointRoom))"
  "determineTrickWinner (tableCards matchPointRoom) (hokm matchPointRoom)
     (suit (card_t (hd (tableCards matchPointRoom)))) = Inr ''u2''"
  "findPlayer (\<lambda>p. pid p = ''u2'') (players matchPointRoom)
     = Some (seat ''u2'' 2 [mkCard Spades 9 ''S-9'', mkCard Diamonds 3 ''D-3''])"
  by (auto simp: matchPointRoom_def lostHandRoom_def fullTableRoom_def playRoom_def newRoom_def
      seat_def mkCard_def maxPlayers_def determineTrickWinner_def trickStep_def Let_def)

lemma matchPointRoom_tricks:
  "tricksAfter matchPointRoom
      (teamId (seat ''u2'' 2 [mkCard Spades 9 ''S-9'', mkCard Diamonds 3 ''D-3'']))
   = [1 \<mapsto> 3, 2 \<mapsto> 7]"
  by (auto simp: matchPointRoom_def lostHandRoom_def fullTableRoom_def playRoom_def newRoom_def
      seat_def tricksAfter_def orZero_def)

lemma matchPointRoom_scores:
  "scoresAfter matchPointRoom [1 \<mapsto> 3, 2 \<mapsto> 7] = [1 \<mapsto> 2, 2 \<mapsto> 7]"
  by (auto simp: matchPointRoom_def lostHandRoom_def fullTableRoom_def playRoom_def newRoom_def
      seat_def scoresAfter_def handPoints_def handWinnerTeamId_def atLeast7_def orZero_def
      calculateRoundPoints_def isHakimTeam_def Let_def)

lemma matchPointRoom_finish:
  "scoreOf (applyTxn FinishTrick matchPointRoom) 2 = 7"
proof -
  have o: "handOver (tricksAfter matchPointRoom
      (teamId (seat ''u2'' 2 [mkCard Spades 9 ''S-9'', mkCard Diamonds 3 ''D-3''])))"
    by (simp add: matchPointRoom_tricks handOver_def atLeast7_def)
  have a: "atLeast7 (scoresAfter matchPointRoom (tricksAfter matchPointRoom
      (teamId (seat ''u2'' 2 [mkCard Spades 9 ''S-9'', mkCard Diamonds 3 ''D-3'']))))
     (handWinnerTeamId (tricksAfter matchPointRoom
      (teamId (seat ''u2'' 2 [mkCard Spades 9 ''S-9'', mkCard Diamonds 3 ''D-3'']))))"
    by (simp add: matchPointRoom_tricks matchPointRoom_scores handWinnerTeamId_def atLeast7_def)
  from finishTrick_matchEnd [OF matchPointRoom_facts o a]
  show ?thesis
    by (simp add: applyTxn_def scoreOf_def matchPointRoom_tricks matchPointRoom_scores orZero_def)
qed

lemma matchPointRoom_before:
  "phase matchPointRoom \<noteq> MATCH_END" "scoreOf matchPointRoom t < 7"
  by (simp_all add: matchPointRoom_def lostHandRoom_def fullTableRoom_def playRoom_def
      newRoom_def scoreOf_def orZero_def)

subsection \<open>The reveal timer\<close>

lemma hakimTicks_add:
  "hakimTicks (a + b) m d tc =
     (case hakimTicks a m d tc of Inl e \<Rightarrow> Inl e | Inr tc' \<Rightarrow> hakimTicks b m d tc')"
  by (induction a arbitrary: tc) (auto split: sum.splits)

lemma hakimTicks_Suc_right:
  "hakimTicks (Suc n) m d tc =
     (case hakimTicks n m d tc of Inl e \<Rightarrow> Inl e | Inr tc' \<Rightarrow> hakimTick m d tc')"
proof -
  have "hakimTicks (n + 1) m d tc =
     (case hakimTicks n m d tc of Inl e \<Rightarrow> Inl e | Inr tc' \<Rightarrow> hakimTicks 1 m d tc')"
    by (rule hakimTicks_add)
  then show ?thesis by (auto split: sum.splits)
qed

lemma hakimTick_cleared: "cleared t \<Longrightarrow> hakimTick m d (t, s) = Inr (t, s)"
  by (simp add: hakimTick_def)

lemma hakimTicks_cleared: "cleared t \<Longrightarrow> hakimTicks n m d (t, s) = Inr (t, s)"
  by (induction n) (simp_all add: hakimTick_cleared)

lemma hakimTick_reveal:
  assumes "phase s = HAKIM_DETERMINATION" "i < length d" "rank (d ! i) \<noteq> Ace"
  shows "hakimTick m d (\<lparr>index = i, tempCards = take i d, cleared = False\<rparr>, s) =
         Inr (\<lparr>index = Suc i, tempCards = take (Suc i) d, cleared = False\<rparr>,
              s\<lparr>hakimDeterminationCards := take (Suc i) d\<rparr>)"
  using assms by (simp add: hakimTick_def Let_def take_Suc_conv_app_nth)

lemma hakimTick_ace:
  assumes "phase s = HAKIM_DETERMINATION" "i < length d" "rank (d ! i) = Ace" "0 < m"
    "seatAt (players s) (int i mod m) = Some w"
  shows "hakimTick m d (\<lparr>index = i, tempCards = take i d, cleared = False\<rparr>, s) =
         Inr (\<lparr>index = Suc i, tempCards = take (Suc i) d, cleared = True\<rparr>,
              s\<lparr>hakimDeterminationCards := take (Suc i) d,
                hakimId := Some (pid w), currentTurnPlayerId := Some (pid w),
                phase := DEALING_INITIAL, logs := logs s @ [hakimLog (name w)]\<rparr>)"
  using assms by (simp add: hakimTick_def Let_def take_Suc_conv_app_nth jsRem_nonneg)

lemma hakimTicks_before:
  assumes ph: "phase s = HAKIM_DETERMINATION" and fresh: "hakimDeterminationCards s = []"
    and first: "\<forall>i < k. rank (d ! i) \<noteq> Ace" and kl: "k \<le> length d"
  shows "n \<le> k \<Longrightarrow>
     hakimTicks n m d (\<lparr>index = 0, tempCards = [], cleared = False\<rparr>, s) =
       Inr (\<lparr>index = n, tempCards = take n d, cleared = False\<rparr>,
            s\<lparr>hakimDeterminationCards := take n d\<rparr>)"
proof (induction n)
  case 0
  from fresh have "s\<lparr>hakimDeterminationCards := []\<rparr> = s" by simp
  then show ?case by simp
next
  case (Suc n)
  then have n: "n < k" by simp
  with first kl have r: "rank (d ! n) \<noteq> Ace" "n < length d" by simp_all
  have p: "phase (s\<lparr>hakimDeterminationCards := take n d\<rparr>) = HAKIM_DETERMINATION"
    using ph by simp
  from Suc n have "hakimTicks n m d (\<lparr>index = 0, tempCards = [], cleared = False\<rparr>, s) =
       Inr (\<lparr>index = n, tempCards = take n d, cleared = False\<rparr>,
            s\<lparr>hakimDeterminationCards := take n d\<rparr>)" by simp
  then show ?case
    by (simp only: hakimTicks_Suc_right sum.case hakimTick_reveal [OF p r(2) r(1)]) simp
qed

lemma hakimTicks_after:
  assumes ph: "phase s = HAKIM_DETERMINATION" and fresh: "hakimDeterminationCards s = []"
    and first: "\<forall>i < k. rank (d ! i) \<noteq> Ace" and kl: "k < length d"
    and ace: "rank (d ! k) = Ace" and m: "0 < m"
    and w: "seatAt (players s) (int k mod m) = Some w"
    and n: "k < n"
  shows "hakimTicks n m d (\<lparr>index = 0, tempCards = [], cleared = False\<rparr>, s) =
       Inr (\<lparr>index = Suc k, tempCards = take (Suc k) d, cleared = True\<rparr>,
            s\<lparr>hakimDeterminationCards := take (Suc k) d,
              hakimId := Some (pid w), currentTurnPlayerId := Some (pid w),
              phase := DEALING_INITIAL, logs := logs s @ [hakimLog (name w)]\<rparr>)"
proof -
  let ?t0 = "\<lparr>index = 0, tempCards = [], cleared = False\<rparr>"
  let ?sk = "s\<lparr>hakimDeterminationCards := take k d\<rparr>"
  have b: "hakimTicks k m d (?t0, s) =
       Inr (\<lparr>index = k, tempCards = take k d, cleared = False\<rparr>, ?sk)"
    using hakimTicks_before [OF ph fresh first, of k m] kl by simp
  have p: "phase ?sk = HAKIM_DETERMINATION" using ph by simp
  have w': "seatAt (players ?sk) (int k mod m) = Some w" using w by simp
  have t: "hakimTick m d (\<lparr>index = k, tempCards = take k d, cleared = False\<rparr>, ?sk) =
         Inr (\<lparr>index = Suc k, tempCards = take (Suc k) d, cleared = True\<rparr>,
              s\<lparr>hakimDeterminationCards := take (Suc k) d,
                hakimId := Some (pid w), currentTurnPlayerId := Some (pid w),
                phase := DEALING_INITIAL, logs := logs s @ [hakimLog (name w)]\<rparr>)"
    using hakimTick_ace [OF p kl ace m w'] by simp
  from n obtain j where nj: "n = Suc k + j" by (metis less_iff_Suc_add add_Suc)
  have "hakimTicks (Suc k) m d (?t0, s) =
         Inr (\<lparr>index = Suc k, tempCards = take (Suc k) d, cleared = True\<rparr>,
              s\<lparr>hakimDeterminationCards := take (Suc k) d,
                hakimId := Some (pid w), currentTurnPlayerId := Some (pid w),
                phase := DEALING_INITIAL, logs := logs s @ [hakimLog (name w)]\<rparr>)"
    by (simp only: hakimTicks_Suc_right b sum.case t)
  then show ?thesis
    unfolding nj by (simp only: hakimTicks_add sum.case) (simp add: hakimTicks_cleared)
qed

lemma first_index:
  assumes "\<exists>i < length xs. P (xs ! i)"
  shows "\<exists>k < length xs. P (xs ! k) \<and> (\<forall>i < k. \<not> P (xs ! i))"
proof -
  let ?Q = "\<lambda>i. i < length xs \<and> P (xs ! i)"
  from assms obtain i where "?Q i" by blast
  then have l: "?Q (LEAST i. ?Q i)" by (rule LeastI)
  have "\<not> P (xs ! i)" if "i < (LEAST i. ?Q i)" for i
  proof
    assume "P (xs ! i)"
    with that l have "?Q i" by simp
    with that show False using not_less_Least by blast
  qed
  with l show ?thesis by blast
qed

lemma orderedDeck_ace: "\<exists>c \<in> set orderedDeck. rank c = Ace"
  by (simp add: orderedDeck_def Ace_def)

lemma createDeck_first_ace:
  assumes "validRnd rnd"
  shows "\<exists>k. 1 \<le> k \<and> k \<le> length (createDeck rnd) \<and> rank (createDeck rnd ! (k - 1)) = Ace
            \<and> (\<forall>i < k - 1. rank (createDeck rnd ! i) \<noteq> Ace)"
proof -
  from mset_createDeck [OF assms] have "set (createDeck rnd) = set orderedDeck"
    by (rule mset_eq_setD)
  with orderedDeck_ace obtain c where "c \<in> set (createDeck rnd)" "rank c = Ace" by blast
  then have "\<exists>i < length (createDeck rnd). rank (createDeck rnd ! i) = Ace"
    by (metis in_set_conv_nth)
  from first_index [of "createDeck rnd" "\<lambda>c. rank c = Ace", OF this]
  obtain k where "k < length (createDeck rnd)" "rank (createDeck rnd ! k) = Ace"
    "\<forall>i < k. rank (createDeck rnd ! i) \<noteq> Ace" by blast
  then show ?thesis by (intro exI [of _ "Suc k"]) simp
qed

lemma shuffleLoop_id: "shuffleLoop (\<lambda>i. i) n xs = xs"
  by (induction n arbitrary: xs) (simp_all add: Let_def)

lemma createDeck_id: "createDeck (\<lambda>i. i) = orderedDeck"
  by (simp add: createDeck_def shuffleDeck_def shuffleLoop_id)

lemma validRnd_id: "validRnd (\<lambda>i. i)"
  by (simp add: validRnd_def)

lemma orderedDeck_spades:
  assumes "i < 13"
  shows "rank (orderedDeck ! i) = i + 2"
proof -
  have t: "map rank (take 13 orderedDeck) = [2 ..< 15]"
    by (simp add: orderedDeck_def)
  have l: "i < length (take 13 orderedDeck)" using assms by (simp add: length_orderedDeck)
  from assms have "rank (orderedDeck ! i) = rank (take 13 orderedDeck ! i)" by simp
  also have "\<dots> = map rank (take 13 orderedDeck) ! i" using l by (rule nth_map [symmetric])
  also have "\<dots> = [2 ..< 15] ! i" by (simp only: t)
  also have "\<dots> = 2 + i" using assms by (intro nth_upt) simp
  finally show ?thesis by simp
qed

lemma detRoom_facts:
  "isHost detRoom ''u1''"
  "phase detRoom = HAKIM_DETERMINATION"
  "hakimDeterminationCards detRoom = []"
  "seatAt (players detRoom) (int (13 - 1) mod maxPlayers (mode detRoom)) = Some (seat ''u1'' 1 [])"
  by (simp_all add: detRoom_def newRoom_def emptyHands2_def seat_def isHost_def hostId_def
      maxPlayers_def seatAt2)

subsection \<open>The rendered copy and the stored document\<close>

lemma playCardModifier_unseated:
  assumes "findPlayer (\<lambda>p. pid p = userId) (players s) = None"
  shows "playCardModifier userId maxP c now s = Inr None"
  using findPlayerIndex_none [OF assms] by (simp add: playCardModifier_def Let_def)

lemma lag_facts:
  "[''r1'' \<mapsto> lagStored] ''r1'' = Some lagStored"
  "currentTurnPlayerId lagLocal = Some ''u2''"
  "int (length (tableCards lagLocal)) < maxPlayers (mode lagLocal)"
  "tableCards lagLocal = []"
  "findPlayer (\<lambda>p. pid p = ''u2'') (players lagLocal)
     = Some (seat ''u2'' 2 [mkCard Spades 9 ''S-9'', mkCard Diamonds 3 ''D-3''])"
  "currentTurnPlayerId lagStored = Some ''u2''"
  "int (length (tableCards lagStored)) < maxPlayers (mode lagLocal)"
  "findPlayer (\<lambda>p. pid p = ''u2'') (players lagStored)
     = Some (seat ''u2'' 2 [mkCard Spades 9 ''S-9'', mkCard Diamonds 3 ''D-3''])"
  "1 = findPlayerIndex (\<lambda>p. pid p = ''u2'') (players lagStored)"
  by (simp_all add: lagLocal_def lagStored_def playRoom_def newRoom_def seat_def maxPlayers_def
      findPlayerIndex_def)

lemma lag_lead:
  "map (suit \<circ> card_t) (tableCards lagStored) = [Spades]"
  "map_option (map suit \<circ> hand) (seatAt (players lagStored) 1) = Some [Spades, Diamonds]"
  by (simp_all add: lagStored_def playRoom_def newRoom_def seat_def mkCard_def seatAt2)

section \<open>Properties of the trick winner\<close>

lemma trickStep_suit:
  assumes "suit (snd w) = starterSuit \<or> Some (suit (snd w)) = hokm'"
  shows "suit (snd (trickStep hokm' starterSuit w c)) = starterSuit
         \<or> Some (suit (snd (trickStep hokm' starterSuit w c))) = hokm'"
  using assms by (auto simp: trickStep_def Let_def)

lemma trickStep_cases:
  "trickStep hokm' starterSuit w c = w
   \<or> trickStep hokm' starterSuit w c = (playerId c, card_t c)"
  by (cases w) (simp add: trickStep_def Let_def)

lemma trickLoop_suit:
  "suit (snd w) = starterSuit \<or> Some (suit (snd w)) = hokm' \<Longrightarrow>
   suit (snd (trickLoop hokm' starterSuit w cs)) = starterSuit
   \<or> Some (suit (snd (trickLoop hokm' starterSuit w cs))) = hokm'"
proof (induction cs arbitrary: w)
  case Nil
  then show ?case by simp
next
  case (Cons c cs)
  from Cons.prems have "suit (snd (trickStep hokm' starterSuit w c)) = starterSuit
       \<or> Some (suit (snd (trickStep hokm' starterSuit w c))) = hokm'"
    by (rule trickStep_suit)
  then show ?case using Cons.IH by simp
qed

lemma trickLoop_member:
  "trickLoop hokm' starterSuit w cs = w
   \<or> (\<exists>c \<in> set cs. trickLoop hokm' starterSuit w cs = (playerId c, card_t c))"
proof (induction cs arbitrary: w)
  case Nil
  then show ?case by simp
next
  case (Cons c cs)
  let ?w' = "trickStep hokm' starterSuit w c"
  from Cons.IH [of ?w'] trickStep_cases [of hokm' starterSuit w c]
  show ?case by auto
qed

lemma owns_unique:
  assumes d: "distinct (map playerId cards)"
    and a: "a \<in> set cards" and b: "b \<in> set cards"
    and e: "playerId a = playerId b"
  shows "a = b"
  using d a b e by (meson distinct_map inj_onD)

text \<open>C4: for a non-empty trick whose first card has the lead suit, the player id
  returned by \<open>determineTrickWinner\<close> owns a played card whose suit is the trump suit or
  the lead suit; when every player id occurs once in the trick, that is the only card
  of the returned id, so a card that is neither trump nor of the lead suit never wins.\<close>

theorem determineTrickWinner_trump_or_lead:
  assumes ne: "cards \<noteq> []"
    and lead: "suit (card_t (hd cards)) = leadSuit"
  shows "\<exists>w c. determineTrickWinner cards (Some hokm') leadSuit = Inr w
           \<and> c \<in> set cards \<and> playerId c = w
           \<and> (suit (card_t c) = hokm' \<or> suit (card_t c) = leadSuit)
           \<and> (distinct (map playerId cards) \<longrightarrow>
                (\<forall>c' \<in> set cards. playerId c' = w \<longrightarrow>
                   suit (card_t c') = hokm' \<or> suit (card_t c') = leadSuit))"
proof -
  from ne obtain c0 cs where cards: "cards = c0 # cs" by (cases cards) auto
  let ?r = "trickLoop (Some hokm') leadSuit (playerId c0, card_t c0) cs"
  have res: "determineTrickWinner cards (Some hokm') leadSuit = Inr (fst ?r)"
    by (simp add: determineTrickWinner_def cards)
  from lead cards have "suit (snd (playerId c0, card_t c0)) = leadSuit" by simp
  then have "suit (snd ?r) = leadSuit \<or> Some (suit (snd ?r)) = Some hokm'"
    using trickLoop_suit [of "(playerId c0, card_t c0)" leadSuit "Some hokm'" cs] by blast
  then have st: "suit (snd ?r) = hokm' \<or> suit (snd ?r) = leadSuit" by auto
  from trickLoop_member [of "Some hokm'" leadSuit "(playerId c0, card_t c0)" cs]
  obtain c where c: "c \<in> set cards" "?r = (playerId c, card_t c)"
    using cards by auto
  have own: "playerId c = fst ?r" and crd: "card_t c = snd ?r"
    using c(2) by simp_all
  have uniq: "distinct (map playerId cards) \<longrightarrow>
      (\<forall>c' \<in> set cards. playerId c' = fst ?r \<longrightarrow>
          suit (card_t c') = hokm' \<or> suit (card_t c') = leadSuit)"
  proof (intro impI ballI)
    fix c' assume d: "distinct (map playerId cards)" and m: "c' \<in> set cards"
      and p: "playerId c' = fst ?r"
    from owns_unique [OF d m c(1)] p own have "c' = c" by simp
    with st crd show "suit (card_t c') = hokm' \<or> suit (card_t c') = leadSuit" by simp
  qed
  from res c(1) own st crd uniq show ?thesis by auto
qed

theorem determineTrickWinner_trump_or_lead_witness:
  "trickExample \<noteq> [] \<and> suit (card_t (hd trickExample)) = Spades
   \<and> determineTrickWinner trickExample (Some Hearts) Spades = Inr ''P2''
   \<and> (\<exists>w c. determineTrickWinner trickExample (Some Hearts) Spades = Inr w
           \<and> c \<in> set trickExample \<and> playerId c = w
           \<and> (suit (card_t c) = Hearts \<or> suit (card_t c) = Spades)
           \<and> (distinct (map playerId trickExample) \<longrightarrow>
                (\<forall>c' \<in> set trickExample. playerId c' = w \<longrightarrow>
                   suit (card_t c') = Hearts \<or> suit (card_t c') = Spades)))"
proof -
  have ne: "trickExample \<noteq> []" by (simp add: trickExample_def)
  have ld: "suit (card_t (hd trickExample)) = Spades"
    by (simp add: trickExample_def mkCard_def)
  have w: "determineTrickWinner trickExample (Some Hearts) Spades = Inr ''P2''"
    by (simp add: determineTrickWinner_def trickExample_def mkCard_def trickStep_def Let_def)
  from ne ld w determineTrickWinner_trump_or_lead [OF ne ld, of Hearts]
  show ?thesis by blast
qed

section \<open>Properties of the round points\<close>

text \<open>C5: \<open>calculateRoundPoints\<close> returns 2 when the losing team took no trick and the
  winner is the hakim's team, 3 when the losing team took no trick and the winner is not
  the hakim's team, and 1 whenever the losing team took more than 0 tricks, whatever the
  other arguments are.\<close>

theorem calculateRoundPoints_table:
  "calculateRoundPoints w 0 True = 2
   \<and> calculateRoundPoints w 0 False = 3
   \<and> (0 < l \<longrightarrow> calculateRoundPoints w l b = 1)"
  by (simp add: calculateRoundPoints_def)

theorem calculateRoundPoints_table_witness:
  "calculateRoundPoints 7 0 True = 2
   \<and> calculateRoundPoints 7 0 False = 3
   \<and> (0::int) < 4 \<and> calculateRoundPoints 7 4 True = 1"
  using calculateRoundPoints_table [of 7 4 True] by simp

text \<open>C10: the result of \<open>calculateRoundPoints\<close> does not depend on its first argument,
  the winning team's trick count.\<close>

theorem calculateRoundPoints_ignores_winning_tricks:
  "calculateRoundPoints a losingTricks isWinnerHakimTeam
   = calculateRoundPoints b losingTricks isWinnerHakimTeam"
  by (simp add: calculateRoundPoints_def)

section \<open>Aborted transactions\<close>

text \<open>C3: when the modifier of a transaction run through \<open>performTransaction\<close> aborts
  (returns \<open>null\<close>), the store is returned as it was: no write is issued. This holds for
  every modifier, and in particular for the play of a card by somebody who does not hold
  the turn or on a full table, and for a change to an occupied seat. The guard of the
  first deal is of the same kind on the broadcast path: with a deck already dealt the
  dealing effect writes nothing.\<close>

theorem abort_leaves_document:
  "(st rid = Some s \<and> modifier s = Inr None
      \<longrightarrow> performTransaction modifier rid ue st = Inr st)
   \<and> (st rid = Some s \<and> currentTurnPlayerId s \<noteq> Some userId
      \<longrightarrow> performTransaction (playCardModifier userId maxP c now) rid ue st = Inr st)
   \<and> (st rid = Some s \<and> maxP \<le> int (length (tableCards s))
      \<longrightarrow> performTransaction (playCardModifier userId maxP c now) rid ue st = Inr st)
   \<and> (st rid = Some s \<and> seatAt (players s) (int target) \<noteq> None
      \<longrightarrow> performTransaction (switchSeatModifier userId target) rid ue st = Inr st)
   \<and> (phase gameState = DEALING_INITIAL \<and> deck gameState \<noteq> []
      \<longrightarrow> dealingWrite hostUser rid gameState cur fullDeck st = st)"
  using performTransaction_abort [of st rid s]
  by (auto simp: playCardModifier_turn playCardModifier_full switchSeatModifier_occupied
      dealingWrite_dealt)

theorem abort_leaves_document_witness:
  "[''r1'' \<mapsto> fullTableRoom] ''r1'' = Some fullTableRoom
   \<and> playCardModifier ''u2'' 2 (mkCard Spades 9 ''S-9'') 5 fullTableRoom = Inr None
   \<and> currentTurnPlayerId fullTableRoom \<noteq> Some ''u2''
   \<and> (2::int) \<le> int (length (tableCards fullTableRoom))
   \<and> seatAt (players fullTableRoom) (int 1) \<noteq> None
   \<and> phase (dealtRoom Mode2p seats2 DEALING_INITIAL) = DEALING_INITIAL
   \<and> deck (dealtRoom Mode2p seats2 DEALING_INITIAL) \<noteq> []
   \<and> performTransaction (playCardModifier ''u2'' 2 (mkCard Spades 9 ''S-9'') 5) ''r1'' None
        [''r1'' \<mapsto> fullTableRoom] = Inr [''r1'' \<mapsto> fullTableRoom]
   \<and> performTransaction (switchSeatModifier ''u2'' 1) ''r1'' None
        [''r1'' \<mapsto> fullTableRoom] = Inr [''r1'' \<mapsto> fullTableRoom]
   \<and> dealingWrite ''u1'' ''r1'' (dealtRoom Mode2p seats2 DEALING_INITIAL)
        (dealtRoom Mode2p seats2 DEALING_INITIAL) orderedDeck
        [''r1'' \<mapsto> fullTableRoom]
      = [''r1'' \<mapsto> fullTableRoom]"
proof -
  have a: "[''r1'' \<mapsto> fullTableRoom] ''r1'' = Some fullTableRoom" by simp
  have b: "playCardModifier ''u2'' 2 (mkCard Spades 9 ''S-9'') 5 fullTableRoom = Inr None"
    by (simp add: playCardModifier_def fullTableRoom_def playRoom_def newRoom_def)
  have c: "currentTurnPlayerId fullTableRoom \<noteq> Some ''u2''"
    by (simp add: fullTableRoom_def playRoom_def newRoom_def)
  have d: "(2::int) \<le> int (length (tableCards fullTableRoom))"
    by (simp add: fullTableRoom_def)
  have e: "seatAt (players fullTableRoom) (int 1) \<noteq> None"
    by (simp add: fullTableRoom_def playRoom_def seatAt_def)
  have f: "phase (dealtRoom Mode2p seats2 DEALING_INITIAL) = DEALING_INITIAL"
    by (simp add: dealtRoom_def)
  have g: "deck (dealtRoom Mode2p seats2 DEALING_INITIAL) \<noteq> []"
    by (simp add: dealtRoom_def length_orderedDeck)
  from a b c d e f g
    abort_leaves_document [where st = "[''r1'' \<mapsto> fullTableRoom]" and rid = "''r1''"
      and s = fullTableRoom and modifier = "playCardModifier ''u2'' 2 (mkCard Spades 9 ''S-9'') 5"
      and ue = None and userId = "''u2''" and maxP = 2 and c = "mkCard Spades 9 ''S-9''"
      and now = 5 and target = 1 and gameState = "dealtRoom Mode2p seats2 DEALING_INITIAL"
      and hostUser = "''u1''" and cur = "dealtRoom Mode2p seats2 DEALING_INITIAL" and fullDeck = orderedDeck]
  show ?thesis
    by simp
qed

section \<open>The first deal\<close>

text \<open>C8: the \<open>DEALING_INITIAL\<close> transition proceeds only when the room's deck is empty,
  so a second trigger after the deal writes nothing; and when it proceeds, for the host,
  with a seated hakim and a freshly shuffled deck (which has 52 cards), the hakim's hand
  becomes exactly the first 5 cards of that deck, no other seat changes, the room's deck
  becomes the remaining 47 cards, and the phase becomes \<open>HAKIM_CHOOSING_SUIT\<close>.\<close>

theorem dealInitial_first_five:
  "(phase gameState = DEALING_INITIAL
      \<and> dealingEffect userId gameState cur fullDeck = Some s' \<longrightarrow> deck gameState = [])
   \<and> (phase gameState = DEALING_INITIAL \<and> deck gameState \<noteq> []
      \<longrightarrow> dealingEffect userId gameState cur fullDeck = None)
   \<and> (isHost gameState userId \<and> phase gameState = DEALING_INITIAL \<and> deck gameState = []
       \<and> findPlayer (\<lambda>p. Some (pid p) = hakimId gameState) (players gameState) = Some h
       \<and> hakimIndex = findPlayerIndex (\<lambda>p. Some (pid p) = hakimId gameState) (players gameState)
      \<longrightarrow> (\<exists>s. dealingEffect userId gameState cur (createDeck rnd) = Some s
             \<and> seatAt (players s) hakimIndex = Some (h\<lparr>hand := take 5 (createDeck rnd)\<rparr>)
             \<and> length (take 5 (createDeck rnd)) = 5
             \<and> (\<forall>j. j \<noteq> hakimIndex \<longrightarrow> seatAt (players s) j = seatAt (players gameState) j)
             \<and> length (players s) = length (players gameState)
             \<and> deck s = drop 5 (createDeck rnd)
             \<and> length (deck s) = 47
             \<and> phase s = HAKIM_CHOOSING_SUIT))"
proof (intro conjI impI)
  assume "phase gameState = DEALING_INITIAL
      \<and> dealingEffect userId gameState cur fullDeck = Some s'"
  then show "deck gameState = []" using dealingEffect_initial_guard by blast
next
  assume "phase gameState = DEALING_INITIAL \<and> deck gameState \<noteq> []"
  then show "dealingEffect userId gameState cur fullDeck = None"
    by (simp add: dealingEffect_def dealInitial_def)
next
  assume a: "isHost gameState userId \<and> phase gameState = DEALING_INITIAL \<and> deck gameState = []
       \<and> findPlayer (\<lambda>p. Some (pid p) = hakimId gameState) (players gameState) = Some h
       \<and> hakimIndex = findPlayerIndex (\<lambda>p. Some (pid p) = hakimId gameState) (players gameState)"
  let ?P = "\<lambda>p. Some (pid p) = hakimId gameState"
  from a have h: "findPlayer ?P (players gameState) = Some h" by simp
  from a have hi: "hakimIndex = findPlayerIndex ?P (players gameState)" by simp
  from findPlayerIndex_some [OF h] hi
  have r: "0 \<le> hakimIndex" "hakimIndex < int (length (players gameState))" by simp_all
  let ?s = "cur\<lparr>deck := drop 5 (createDeck rnd),
                   players := setSeat (players gameState) hakimIndex
                      (Some (h\<lparr>hand := take 5 (createDeck rnd)\<rparr>)),
                   phase := HAKIM_CHOOSING_SUIT\<rparr>"
  have e: "dealingEffect userId gameState cur (createDeck rnd) = Some ?s"
    using a dealInitial_result [of gameState h cur "createDeck rnd"]
    by (simp add: dealingEffect_def)
  show "\<exists>s. dealingEffect userId gameState cur (createDeck rnd) = Some s
             \<and> seatAt (players s) hakimIndex = Some (h\<lparr>hand := take 5 (createDeck rnd)\<rparr>)
             \<and> length (take 5 (createDeck rnd)) = 5
             \<and> (\<forall>j. j \<noteq> hakimIndex \<longrightarrow> seatAt (players s) j = seatAt (players gameState) j)
             \<and> length (players s) = length (players gameState)
             \<and> deck s = drop 5 (createDeck rnd)
             \<and> length (deck s) = 47
             \<and> phase s = HAKIM_CHOOSING_SUIT"
    using e r
    by (intro exI [of _ ?s])
       (simp add: seatAt_setSeat_same seatAt_setSeat_other length_setSeat length_createDeck)
qed

theorem dealInitial_first_five_witness:
  "isHost hakimRoom ''u1'' \<and> phase hakimRoom = DEALING_INITIAL \<and> deck hakimRoom = []
   \<and> findPlayer (\<lambda>p. Some (pid p) = hakimId hakimRoom) (players hakimRoom) = Some (seat ''u1'' 1 [])
   \<and> (\<exists>s. dealingEffect ''u1'' hakimRoom hakimRoom (createDeck (\<lambda>i. 0)) = Some s
         \<and> seatAt (players s) 0 = Some ((seat ''u1'' 1 [])\<lparr>hand := take 5 (createDeck (\<lambda>i. 0))\<rparr>)
         \<and> deck s = drop 5 (createDeck (\<lambda>i. 0))
         \<and> length (deck s) = 47
         \<and> phase s = HAKIM_CHOOSING_SUIT)"
proof -
  have p: "phase hakimRoom = DEALING_INITIAL" and d: "deck hakimRoom = []"
    by (simp_all add: hakimRoom_def newRoom_def)
  from hakimRoom_host p d hakimRoom_hakim hakimRoom_index
    dealInitial_first_five [where gameState = hakimRoom and userId = "''u1''"
      and h = "seat ''u1'' 1 []" and hakimIndex = 0 and cur = hakimRoom and rnd = "\<lambda>i. 0"]
  show ?thesis by auto
qed

section \<open>The second deal\<close>

text \<open>C2 (as the code has it): when the host completes the \<open>DEALING_REMAINDER\<close>
  transition in a room with every seat taken, the hakim holding 5 cards and a deck of
  47: in 2p mode the hakim's hand is extended by the first 8 cards of the deck and the
  opponent's hand becomes the next 13 (positions 8 to 20); in 4p mode the three seats
  after the hakim, clockwise from hakim+1, get the cards at positions 0-12, 13-25 and
  26-38, and the hakim's hand is extended by the cards at positions 39-46. In both modes
  every seated hand then has 13 cards, the phase is \<open>PLAYING\<close> and
  \<open>currentTurnPlayerId\<close> is the hakim. The \<open>deck\<close> field is not part of the patch: the
  written state keeps the deck of the host's current copy, so it is not emptied (it is
  reset at the end of the hand).\<close>

theorem dealRemainder_hands:
  assumes host: "isHost gameState userId"
    and ph: "phase gameState = DEALING_REMAINDER"
    and len: "int (length (players gameState)) = maxPlayers (mode gameState)"
    and full: "None \<notin> set (players gameState)"
    and hk: "findPlayer (\<lambda>p. Some (pid p) = hakimId gameState) (players gameState) = Some h"
    and h5: "length (hand h) = 5"
    and hi: "hakimIndex = findPlayerIndex (\<lambda>p. Some (pid p) = hakimId gameState) (players gameState)"
    and dk: "length (deck gameState) = 47"
  shows "\<exists>s. dealingEffect userId gameState cur fullDeck = Some s
     \<and> phase s = PLAYING \<and> currentTurnPlayerId s = hakimId gameState
     \<and> deck s = deck cur
     \<and> length (players s) = length (players gameState)
     \<and> (\<forall>j q. seatAt (players gameState) j = Some q \<longrightarrow>
           (\<exists>hand'. seatAt (players s) j = Some (q\<lparr>hand := hand'\<rparr>) \<and> length hand' = 13))
     \<and> seatAt (players s) hakimIndex =
           Some (h\<lparr>hand := hand h @ (if mode gameState = Mode2p then slice 0 8 (deck gameState)
                                       else slice 39 47 (deck gameState))\<rparr>)
     \<and> (mode gameState = Mode2p \<longrightarrow>
          (\<forall>opp. seatAt (players gameState) (1 - hakimIndex) = Some opp \<longrightarrow>
             seatAt (players s) (1 - hakimIndex) = Some (opp\<lparr>hand := slice 8 21 (deck gameState)\<rparr>)))
     \<and> (mode gameState = Mode4p \<longrightarrow>
          (\<forall>i \<in> {1, 2, 3}. \<forall>q. seatAt (players gameState) ((hakimIndex + int i) mod 4) = Some q \<longrightarrow>
             seatAt (players s) ((hakimIndex + int i) mod 4) =
               Some (q\<lparr>hand := slice (13 * (i - 1)) (13 * i) (deck gameState)\<rparr>)))"
proof -
  let ?P = "\<lambda>p. Some (pid p) = hakimId gameState"
  from findPlayerIndex_some [OF hk] hi
  have r: "0 \<le> hakimIndex" "hakimIndex < int (length (players gameState))"
    and sh: "seatAt (players gameState) hakimIndex = Some h" by simp_all
  have eff: "dealingEffect userId gameState cur fullDeck = dealRemainder gameState cur"
    using host ph by (rule dealingEffect_remainder)
  have l8: "length (slice 0 8 (deck gameState)) = 8"
    and l13a: "length (slice 8 21 (deck gameState)) = 13"
    and l13b: "length (slice 0 13 (deck gameState)) = 13"
    and l13c: "length (slice 13 26 (deck gameState)) = 13"
    and l13d: "length (slice 26 39 (deck gameState)) = 13"
    and l8b: "length (slice 39 47 (deck gameState)) = 8"
    using dk by (simp_all add: slice_len)
  show ?thesis
  proof (cases "mode gameState")
    case Mode2p
    with len have "length (players gameState) = 2" by (simp add: maxPlayers_def)
    from list2_Some [OF this full] obtain a b where ps: "players gameState = [Some a, Some b]"
      by blast
    from r ps have "hakimIndex = 0 \<or> hakimIndex = 1" by auto
    then show ?thesis
    proof
      assume z: "hakimIndex = 0"
      with sh ps have ha: "h = a" by (simp add: seatAt2)
      from dealRemainder_2p_0 [OF Mode2p ps] hi z h5 ha
      have "dealRemainder gameState cur =
        Some (cur\<lparr>players := [Some (a\<lparr>hand := hand a @ slice 0 8 (deck gameState)\<rparr>),
                             Some (b\<lparr>hand := slice 8 21 (deck gameState)\<rparr>)],
               phase := PLAYING, currentTurnPlayerId := hakimId gameState\<rparr>)" by simp
      with eff Mode2p ps z ha h5 l8 l13a show ?thesis
        by (auto simp: seatAt2 split: if_splits)
    next
      assume z: "hakimIndex = 1"
      with sh ps have ha: "h = b" by (simp add: seatAt2)
      from dealRemainder_2p_1 [OF Mode2p ps] hi z h5 ha
      have "dealRemainder gameState cur =
        Some (cur\<lparr>players := [Some (a\<lparr>hand := slice 8 21 (deck gameState)\<rparr>),
                             Some (b\<lparr>hand := hand b @ slice 0 8 (deck gameState)\<rparr>)],
               phase := PLAYING, currentTurnPlayerId := hakimId gameState\<rparr>)" by simp
      with eff Mode2p ps z ha h5 l8 l13a show ?thesis
        by (auto simp: seatAt2 split: if_splits)
    qed
  next
    case Mode4p
    with len have "length (players gameState) = 4" by (simp add: maxPlayers_def)
    from list4_Some [OF this full] obtain p0 p1 p2 p3
      where ps: "players gameState = [Some p0, Some p1, Some p2, Some p3]" by blast
    from r ps have "hakimIndex = 0 \<or> hakimIndex = 1 \<or> hakimIndex = 2 \<or> hakimIndex = 3" by auto
    then consider (0) "hakimIndex = 0" | (1) "hakimIndex = 1" | (2) "hakimIndex = 2"
      | (3) "hakimIndex = 3" by blast
    then show ?thesis
    proof cases
      case 0
      with sh ps have ha: "h = p0" by (simp add: seatAt4)
      from dealRemainder_4p_0 [OF Mode4p ps, of cur] hi 0 h5 ha eff
      have "dealingEffect userId gameState cur fullDeck =
        Some (cur\<lparr>players := [Some (p0\<lparr>hand := hand p0 @ slice 39 47 (deck gameState)\<rparr>),
                             Some (p1\<lparr>hand := slice 0 13 (deck gameState)\<rparr>),
                             Some (p2\<lparr>hand := slice 13 26 (deck gameState)\<rparr>),
                             Some (p3\<lparr>hand := slice 26 39 (deck gameState)\<rparr>)],
               phase := PLAYING, currentTurnPlayerId := hakimId gameState\<rparr>)" by simp
      with Mode4p ps 0 ha h5 l8b l13b l13c l13d show ?thesis
        by (auto simp: seatAt4 split: if_splits)
    next
      case 1
      with sh ps have ha: "h = p1" by (simp add: seatAt4)
      from dealRemainder_4p_1 [OF Mode4p ps, of cur] hi 1 h5 ha eff
      have "dealingEffect userId gameState cur fullDeck =
        Some (cur\<lparr>players := [Some (p0\<lparr>hand := slice 26 39 (deck gameState)\<rparr>),
                             Some (p1\<lparr>hand := hand p1 @ slice 39 47 (deck gameState)\<rparr>),
                             Some (p2\<lparr>hand := slice 0 13 (deck gameState)\<rparr>),
                             Some (p3\<lparr>hand := slice 13 26 (deck gameState)\<rparr>)],
               phase := PLAYING, currentTurnPlayerId := hakimId gameState\<rparr>)" by simp
      with Mode4p ps 1 ha h5 l8b l13b l13c l13d show ?thesis
        by (auto simp: seatAt4 split: if_splits)
    next
      case 2
      with sh ps have ha: "h = p2" by (simp add: seatAt4)
      from dealRemainder_4p_2 [OF Mode4p ps, of cur] hi 2 h5 ha eff
      have "dealingEffect userId gameState cur fullDeck =
        Some (cur\<lparr>players := [Some (p0\<lparr>hand := slice 13 26 (deck gameState)\<rparr>),
                             Some (p1\<lparr>hand := slice 26 39 (deck gameState)\<rparr>),
                             Some (p2\<lparr>hand := hand p2 @ slice 39 47 (deck gameState)\<rparr>),
                             Some (p3\<lparr>hand := slice 0 13 (deck gameState)\<rparr>)],
               phase := PLAYING, currentTurnPlayerId := hakimId gameState\<rparr>)" by simp
      with Mode4p ps 2 ha h5 l8b l13b l13c l13d show ?thesis
        by (auto simp: seatAt4 split: if_splits)
    next
      case 3
      with sh ps have ha: "h = p3" by (simp add: seatAt4)
      from dealRemainder_4p_3 [OF Mode4p ps, of cur] hi 3 h5 ha eff
      have "dealingEffect userId gameState cur fullDeck =
        Some (cur\<lparr>players := [Some (p0\<lparr>hand := slice 0 13 (deck gameState)\<rparr>),
                             Some (p1\<lparr>hand := slice 13 26 (deck gameState)\<rparr>),
                             Some (p2\<lparr>hand := slice 26 39 (deck gameState)\<rparr>),
                             Some (p3\<lparr>hand := hand p3 @ slice 39 47 (deck gameState)\<rparr>)],
               phase := PLAYING, currentTurnPlayerId := hakimId gameState\<rparr>)" by simp
      with Mode4p ps 3 ha h5 l8b l13b l13c l13d show ?thesis
        by (auto simp: seatAt4 split: if_splits)
    qed
  qed
qed

theorem dealRemainder_hands_witness:
  "isHost (dealtRoom Mode2p seats2 DEALING_REMAINDER) ''u1''
   \<and> phase (dealtRoom Mode2p seats2 DEALING_REMAINDER) = DEALING_REMAINDER
   \<and> length (deck (dealtRoom Mode2p seats2 DEALING_REMAINDER)) = 47
   \<and> (\<exists>s. dealingEffect ''u1'' (dealtRoom Mode2p seats2 DEALING_REMAINDER)
              (dealtRoom Mode2p seats2 DEALING_REMAINDER) orderedDeck = Some s
         \<and> phase s = PLAYING \<and> currentTurnPlayerId s = Some ''u1''
         \<and> length (deck s) = 47
         \<and> seatAt (players s) 0 =
             Some ((seat ''u1'' 1 (take 5 orderedDeck))
                \<lparr>hand := take 5 orderedDeck @ slice 0 8 (drop 5 orderedDeck)\<rparr>)
         \<and> seatAt (players s) 1 =
             Some ((seat ''u2'' 2 [])\<lparr>hand := slice 8 21 (drop 5 orderedDeck)\<rparr>))
   \<and> isHost (dealtRoom Mode4p seats4 DEALING_REMAINDER) ''u0''
   \<and> (\<exists>s. dealingEffect ''u0'' (dealtRoom Mode4p seats4 DEALING_REMAINDER)
              (dealtRoom Mode4p seats4 DEALING_REMAINDER) orderedDeck = Some s
         \<and> phase s = PLAYING \<and> currentTurnPlayerId s = Some ''u1''
         \<and> length (deck s) = 47
         \<and> seatAt (players s) 2 = Some ((seat ''u2'' 1 [])\<lparr>hand := slice 0 13 (drop 5 orderedDeck)\<rparr>)
         \<and> seatAt (players s) 1 =
             Some ((seat ''u1'' 2 (take 5 orderedDeck))
                \<lparr>hand := take 5 orderedDeck @ slice 39 47 (drop 5 orderedDeck)\<rparr>))"
proof -
  let ?R2 = "dealtRoom Mode2p seats2 DEALING_REMAINDER"
  let ?R4 = "dealtRoom Mode4p seats4 DEALING_REMAINDER"
  have s2: "seatAt (players ?R2) (1 - 0) = Some (seat ''u2'' 2 [])"
    by (simp add: dealtRoom_def seats2_def seatAt2)
  have s4: "seatAt (players ?R4) ((1 + int 1) mod 4) = Some (seat ''u2'' 1 [])"
    by (simp add: dealtRoom_def seats4_def seatAt4)
  have c: "mode ?R2 = Mode2p" "mode ?R4 = Mode4p" "deck ?R2 = drop 5 orderedDeck"
    "deck ?R4 = drop 5 orderedDeck" "hakimId ?R2 = Some ''u1''" "hakimId ?R4 = Some ''u1''"
    "hand (seat ''u1'' 1 (take 5 orderedDeck)) = take 5 orderedDeck"
    "hand (seat ''u1'' 2 (take 5 orderedDeck)) = take 5 orderedDeck"
    by (simp_all add: dealtRoom_def newRoom_def seat_def)
  from dealRemainder_hands [OF room2_facts, of ?R2 orderedDeck] s2 c room2_facts(8)
  have A: "\<exists>s. dealingEffect ''u1'' ?R2 ?R2 orderedDeck = Some s
         \<and> phase s = PLAYING \<and> currentTurnPlayerId s = Some ''u1''
         \<and> length (deck s) = 47
         \<and> seatAt (players s) 0 =
             Some ((seat ''u1'' 1 (take 5 orderedDeck))
                \<lparr>hand := take 5 orderedDeck @ slice 0 8 (drop 5 orderedDeck)\<rparr>)
         \<and> seatAt (players s) 1 =
             Some ((seat ''u2'' 2 [])\<lparr>hand := slice 8 21 (drop 5 orderedDeck)\<rparr>)"
    by auto
  from dealRemainder_hands [OF room4_facts, of ?R4 orderedDeck] s4 c room4_facts(8)
  have B: "\<exists>s. dealingEffect ''u0'' ?R4 ?R4 orderedDeck = Some s
         \<and> phase s = PLAYING \<and> currentTurnPlayerId s = Some ''u1''
         \<and> length (deck s) = 47
         \<and> seatAt (players s) 2 = Some ((seat ''u2'' 1 [])\<lparr>hand := slice 0 13 (drop 5 orderedDeck)\<rparr>)
         \<and> seatAt (players s) 1 =
             Some ((seat ''u1'' 2 (take 5 orderedDeck))
                \<lparr>hand := take 5 orderedDeck @ slice 39 47 (drop 5 orderedDeck)\<rparr>)"
    by auto
  from A B room2_facts(1,2,8) room4_facts(1) show ?thesis by blast
qed

theorem dealRemainder_deck_counterexample:
  "phase (dealtRoom Mode2p seats2 DEALING_REMAINDER) = DEALING_REMAINDER
   \<and> map_option (length \<circ> deck)
        (dealingEffect ''u1'' (dealtRoom Mode2p seats2 DEALING_REMAINDER)
           (dealtRoom Mode2p seats2 DEALING_REMAINDER) orderedDeck) = Some 47
   \<and> map_option (length \<circ> hand) (seatAt seats2 0) = Some 5"
proof -
  have a: "map_option (length \<circ> deck)
        (dealingEffect ''u1'' (dealtRoom Mode2p seats2 DEALING_REMAINDER)
           (dealtRoom Mode2p seats2 DEALING_REMAINDER) orderedDeck) = Some 47"
    using room2_facts(8) by (simp add: room2_deal)
  have b: "map_option (length \<circ> hand) (seatAt seats2 0) = Some 5"
    by (simp add: seats2_def seatAt2 seat_def length_orderedDeck)
  from a b room2_facts(2) show ?thesis by simp
qed



section \<open>The end of a hand\<close>

text \<open>C7: when resolving a trick ends the hand (a team reaches 7 tricks) without ending
  the match (the hand winner's new score is below 7): if the hakim's team lost the hand,
  \<open>hakimId\<close> becomes the id of the seat at \<open>(hakimIndex + 1) mod playerCount\<close>; if the
  hakim's team won, \<open>hakimId\<close> is unchanged; and the state is reset with an empty deck,
  an empty table, trick counts \<open>{1: 0, 2: 0}\<close>, no trump, no determination cards and
  phase \<open>DEALING_INITIAL\<close>.\<close>

theorem finishTrick_hand_end:
  assumes full: "maxPlayers (mode roomData) \<le> int (length (tableCards roomData))"
    and win: "determineTrickWinner (tableCards roomData) (hokm roomData)
                (suit (card_t (hd (tableCards roomData)))) = Inr winnerId"
    and wp: "findPlayer (\<lambda>p. pid p = winnerId) (players roomData) = Some winnerPlayer"
    and crt: "crt = tricksAfter roomData (teamId winnerPlayer)"
    and over: "handOver crt"
    and team: "team = handWinnerTeamId crt"
    and nomatch: "\<not> atLeast7 (scoresAfter roomData crt) team"
    and hi: "hakimIndex = findPlayerIndex (\<lambda>p. Some (pid p) = hakimId roomData) (players roomData)"
  shows "\<exists>s'. finishTrickModifier roomData = Inr (Some s')
      \<and> (\<not> isHakimTeam roomData team \<longrightarrow>
            hakimId s' = map_option pid (seatAt (players roomData)
                           ((hakimIndex + 1) mod maxPlayers (mode roomData))))
      \<and> (isHakimTeam roomData team \<longrightarrow> hakimId s' = hakimId roomData)
      \<and> deck s' = [] \<and> tableCards s' = []
      \<and> currentRoundTricks s' = [1 \<mapsto> 0, 2 \<mapsto> 0]
      \<and> hokm s' = None \<and> hakimDeterminationCards s' = []
      \<and> phase s' = DEALING_INITIAL"
  using finishTrick_handEnd [OF full win wp] over nomatch crt team hi
  by (simp add: nextHakimId_mod)

theorem finishTrick_hand_end_witness:
  "maxPlayers (mode lostHandRoom) \<le> int (length (tableCards lostHandRoom))
   \<and> handOver [1 \<mapsto> 3, 2 \<mapsto> 7]
   \<and> \<not> atLeast7 (scoresAfter lostHandRoom [1 \<mapsto> 3, 2 \<mapsto> 7]) 2
   \<and> \<not> isHakimTeam lostHandRoom 2
   \<and> hakimId lostHandRoom = Some ''u1''
   \<and> (\<exists>s'. finishTrickModifier lostHandRoom = Inr (Some s')
         \<and> hakimId s' = Some ''u2''
         \<and> deck s' = [] \<and> tableCards s' = []
         \<and> currentRoundTricks s' = [1 \<mapsto> 0, 2 \<mapsto> 0]
         \<and> hokm s' = None \<and> hakimDeterminationCards s' = []
         \<and> phase s' = DEALING_INITIAL)
   \<and> isHakimTeam wonHandRoom 1
   \<and> (\<exists>s'. finishTrickModifier wonHandRoom = Inr (Some s')
         \<and> hakimId s' = Some ''u1''
         \<and> deck s' = [] \<and> tableCards s' = []
         \<and> currentRoundTricks s' = [1 \<mapsto> 0, 2 \<mapsto> 0]
         \<and> hokm s' = None \<and> hakimDeterminationCards s' = []
         \<and> phase s' = DEALING_INITIAL)"
proof -
  have n: "map_option pid (seatAt (players lostHandRoom) ((0 + 1) mod maxPlayers (mode lostHandRoom)))
           = Some ''u2''"
    by (simp add: lostHandRoom_def fullTableRoom_def playRoom_def newRoom_def seat_def
        maxPlayers_def seatAt2)
  have h: "hakimId lostHandRoom = Some ''u1''" "hakimId wonHandRoom = Some ''u1''"
    by (simp_all add: lostHandRoom_def wonHandRoom_def fullTableRoom_def playRoom_def newRoom_def)
  from finishTrick_hand_end [OF lostHandRoom_facts(1-8)] lostHandRoom_facts(9) n
  have A: "\<exists>s'. finishTrickModifier lostHandRoom = Inr (Some s')
         \<and> hakimId s' = Some ''u2''
         \<and> deck s' = [] \<and> tableCards s' = []
         \<and> currentRoundTricks s' = [1 \<mapsto> 0, 2 \<mapsto> 0]
         \<and> hokm s' = None \<and> hakimDeterminationCards s' = []
         \<and> phase s' = DEALING_INITIAL"
    by auto
  from finishTrick_hand_end [OF wonHandRoom_facts(1-8)] wonHandRoom_facts(9) h(2)
  have B: "\<exists>s'. finishTrickModifier wonHandRoom = Inr (Some s')
         \<and> hakimId s' = Some ''u1''
         \<and> deck s' = [] \<and> tableCards s' = []
         \<and> currentRoundTricks s' = [1 \<mapsto> 0, 2 \<mapsto> 0]
         \<and> hokm s' = None \<and> hakimDeterminationCards s' = []
         \<and> phase s' = DEALING_INITIAL"
    by auto
  from A B h(1) lostHandRoom_facts(1,5,7,9) wonHandRoom_facts(9) show ?thesis by blast
qed

section \<open>Scores over sequences of transactions\<close>

text \<open>C6: along every sequence of transactions on the document (an aborted one leaves
  it as it is), each team's score never decreases; a transaction changes the scores
  only by adding the awarded 1, 2 or 3 points to one team's entry; and from a state that
  is not in \<open>MATCH_END\<close> and in which every team's score is below 7, the next transaction
  makes the phase \<open>MATCH_END\<close> exactly when it brings some team's score to 7 or more.\<close>

theorem scores_monotone_match_end:
  "(\<forall>t. scoreOf s t \<le> scoreOf (runTxns xs s) t)
   \<and> (scores (runTxns (xs @ [x]) s) = scores (runTxns xs s)
       \<or> (\<exists>team points. points \<in> {1, 2, 3}
             \<and> scores (runTxns (xs @ [x]) s)
                 = (scores (runTxns xs s))(team \<mapsto> scoreOf (runTxns xs s) team + points)))
   \<and> (phase (runTxns xs s) \<noteq> MATCH_END \<and> (\<forall>t. scoreOf (runTxns xs s) t < 7)
       \<longrightarrow> (phase (runTxns (xs @ [x]) s) = MATCH_END
              \<longleftrightarrow> (\<exists>t. 7 \<le> scoreOf (runTxns (xs @ [x]) s) t)))"
  using runTxns_mono [of s _ xs] applyTxn_awarded [of x "runTxns xs s"]
    applyTxn_matchEnd [of "runTxns xs s" x]
  by (simp add: runTxns_snoc)

theorem scores_monotone_match_end_witness:
  "phase (runTxns [] matchPointRoom) \<noteq> MATCH_END
   \<and> (\<forall>t. scoreOf (runTxns [] matchPointRoom) t < 7)
   \<and> scoreOf matchPointRoom 2 \<le> scoreOf (runTxns [FinishTrick] matchPointRoom) 2
   \<and> scoreOf (runTxns [FinishTrick] matchPointRoom) 2 = 7
   \<and> phase (runTxns ([] @ [FinishTrick]) matchPointRoom) = MATCH_END"
proof -
  have b: "phase (runTxns [] matchPointRoom) \<noteq> MATCH_END"
    "\<forall>t. scoreOf (runTxns [] matchPointRoom) t < 7"
    using matchPointRoom_before by simp_all
  have f: "scoreOf (runTxns ([] @ [FinishTrick]) matchPointRoom) 2 = 7"
    using matchPointRoom_finish by simp
  from scores_monotone_match_end [where s = matchPointRoom and xs = "[FinishTrick]" and x = FinishTrick]
  have m: "scoreOf matchPointRoom 2 \<le> scoreOf (runTxns [FinishTrick] matchPointRoom) 2"
    by blast
  from scores_monotone_match_end [where s = matchPointRoom and xs = "[]" and x = FinishTrick] b
  have "phase (runTxns ([] @ [FinishTrick]) matchPointRoom) = MATCH_END
      \<longleftrightarrow> (\<exists>t. 7 \<le> scoreOf (runTxns ([] @ [FinishTrick]) matchPointRoom) t)"
    by blast
  moreover from f have "\<exists>t. 7 \<le> scoreOf (runTxns ([] @ [FinishTrick]) matchPointRoom) t"
    by (intro exI [of _ 2]) simp
  ultimately have p: "phase (runTxns ([] @ [FinishTrick]) matchPointRoom) = MATCH_END" by blast
  from b m f p show ?thesis by simp
qed

section \<open>Hakim determination\<close>

text \<open>C9: during hakim determination the host reveals the cards of a fresh deck one per
  tick, each appended to \<open>hakimDeterminationCards\<close>: after \<open>n\<close> ticks, for \<open>n\<close> below the
  position \<open>k\<close> (counted from 1) of the first Ace, the revealed cards are the first \<open>n\<close>
  cards of the deck and the phase is still \<open>HAKIM_DETERMINATION\<close>. Revealing stops at the
  first Ace: from tick \<open>k\<close> on the timer is cleared, the revealed cards are the first \<open>k\<close>
  cards, the player at seat \<open>(k - 1) mod playerCount\<close> is both \<open>hakimId\<close> and
  \<open>currentTurnPlayerId\<close>, and the phase is \<open>DEALING_INITIAL\<close>. A deck made by
  \<open>createDeck\<close> always has such a first Ace, so the reveal always ends.\<close>

theorem hakimDetermination_first_ace:
  assumes host: "isHost gameState userId"
    and ph: "phase gameState = HAKIM_DETERMINATION"
    and fresh: "hakimDeterminationCards gameState = []"
    and k1: "1 \<le> k" and kl: "k \<le> length deck'"
    and ace: "rank (deck' ! (k - 1)) = Ace"
    and first: "\<forall>i < k - 1. rank (deck' ! i) \<noteq> Ace"
    and w: "seatAt (players gameState) (int (k - 1) mod maxPlayers (mode gameState)) = Some winner"
  shows "(\<forall>n < k. \<exists>t s. hakimDetermination userId gameState deck' n = Some (Inr (t, s))
            \<and> \<not> cleared t \<and> hakimDeterminationCards s = take n deck'
            \<and> phase s = HAKIM_DETERMINATION \<and> hakimId s = hakimId gameState)
     \<and> (\<forall>n \<ge> k. \<exists>t s. hakimDetermination userId gameState deck' n = Some (Inr (t, s))
            \<and> cleared t \<and> hakimDeterminationCards s = take k deck'
            \<and> hakimId s = Some (pid winner) \<and> currentTurnPlayerId s = Some (pid winner)
            \<and> phase s = DEALING_INITIAL)
     \<and> (validRnd rnd \<longrightarrow>
          (\<exists>k'. 1 \<le> k' \<and> k' \<le> length (createDeck rnd)
              \<and> rank (createDeck rnd ! (k' - 1)) = Ace
              \<and> (\<forall>i < k' - 1. rank (createDeck rnd ! i) \<noteq> Ace)))"
proof (intro conjI allI impI)
  let ?t0 = "\<lparr>index = 0, tempCards = [], cleared = False\<rparr>"
  let ?m = "maxPlayers (mode gameState)"
  have run: "hakimDetermination userId gameState deck' n = Some (hakimTicks n ?m deck' (?t0, gameState))"
    for n using host ph fresh by (simp add: hakimDetermination_def)
  from k1 obtain j where kj: "k = Suc j" by (cases k) auto
  {
    fix n assume n: "n < k"
    have "hakimTicks n ?m deck' (?t0, gameState) =
       Inr (\<lparr>index = n, tempCards = take n deck', cleared = False\<rparr>,
            gameState\<lparr>hakimDeterminationCards := take n deck'\<rparr>)"
      using hakimTicks_before [OF ph fresh, of j deck' n ?m] first kl n kj by simp
    with run [of n] ph
    show "\<exists>t s. hakimDetermination userId gameState deck' n = Some (Inr (t, s))
            \<and> \<not> cleared t \<and> hakimDeterminationCards s = take n deck'
            \<and> phase s = HAKIM_DETERMINATION \<and> hakimId s = hakimId gameState"
      by simp
  }
  {
    fix n assume n: "k \<le> n"
    have "hakimTicks n ?m deck' (?t0, gameState) =
       Inr (\<lparr>index = Suc j, tempCards = take (Suc j) deck', cleared = True\<rparr>,
            gameState\<lparr>hakimDeterminationCards := take (Suc j) deck',
              hakimId := Some (pid winner), currentTurnPlayerId := Some (pid winner),
              phase := DEALING_INITIAL, logs := logs gameState @ [hakimLog (name winner)]\<rparr>)"
      using hakimTicks_after [of gameState j deck' ?m winner n] ph fresh first kl ace w n kj
        maxPlayers_pos [of "mode gameState"]
      by simp
    with run [of n] kj
    show "\<exists>t s. hakimDetermination userId gameState deck' n = Some (Inr (t, s))
            \<and> cleared t \<and> hakimDeterminationCards s = take k deck'
            \<and> hakimId s = Some (pid winner) \<and> currentTurnPlayerId s = Some (pid winner)
            \<and> phase s = DEALING_INITIAL"
      by simp
  }
  {
    assume "validRnd rnd"
    then show "\<exists>k'. 1 \<le> k' \<and> k' \<le> length (createDeck rnd)
              \<and> rank (createDeck rnd ! (k' - 1)) = Ace
              \<and> (\<forall>i < k' - 1. rank (createDeck rnd ! i) \<noteq> Ace)"
      by (rule createDeck_first_ace)
  }
qed

theorem hakimDetermination_first_ace_witness:
  "isHost detRoom ''u1'' \<and> phase detRoom = HAKIM_DETERMINATION
   \<and> hakimDeterminationCards detRoom = []
   \<and> validRnd (\<lambda>i. i)
   \<and> rank (createDeck (\<lambda>i. i) ! (13 - 1)) = Ace
   \<and> find (\<lambda>c. rank c = Ace) (take 12 (createDeck (\<lambda>i. i))) = None
   \<and> (\<exists>t s. hakimDetermination ''u1'' detRoom (createDeck (\<lambda>i. i)) 5 = Some (Inr (t, s))
         \<and> hakimDeterminationCards s = take 5 (createDeck (\<lambda>i. i))
         \<and> phase s = HAKIM_DETERMINATION)
   \<and> (\<exists>t s. hakimDetermination ''u1'' detRoom (createDeck (\<lambda>i. i)) 13 = Some (Inr (t, s))
         \<and> hakimDeterminationCards s = take 13 (createDeck (\<lambda>i. i))
         \<and> hakimId s = Some ''u1'' \<and> currentTurnPlayerId s = Some ''u1''
         \<and> phase s = DEALING_INITIAL)"
proof -
  have k: "(1::nat) \<le> 13" "13 \<le> length (createDeck (\<lambda>i. i))"
    by (simp_all add: length_createDeck)
  have a: "rank (createDeck (\<lambda>i. i) ! (13 - 1)) = Ace"
    by (simp add: createDeck_id orderedDeck_spades Ace_def)
  have f: "\<forall>i < 13 - 1. rank (createDeck (\<lambda>i. i) ! i) \<noteq> Ace"
    by (simp add: createDeck_id orderedDeck_spades Ace_def)
  have p: "pid (seat ''u1'' 1 []) = ''u1''" by (simp add: seat_def)
  note T = hakimDetermination_first_ace [OF detRoom_facts(1,2,3) k a f detRoom_facts(4)]
  from T have T1: "\<forall>n<13. \<exists>t s. hakimDetermination ''u1'' detRoom (createDeck (\<lambda>i. i)) n
             = Some (Inr (t, s))
           \<and> \<not> cleared t \<and> hakimDeterminationCards s = take n (createDeck (\<lambda>i. i))
           \<and> phase s = HAKIM_DETERMINATION \<and> hakimId s = hakimId detRoom"
    by (rule conjunct1)
  from T have T2: "\<forall>n\<ge>13. \<exists>t s. hakimDetermination ''u1'' detRoom (createDeck (\<lambda>i. i)) n
             = Some (Inr (t, s))
           \<and> cleared t \<and> hakimDeterminationCards s = take 13 (createDeck (\<lambda>i. i))
           \<and> hakimId s = Some (pid (seat ''u1'' 1 []))
           \<and> currentTurnPlayerId s = Some (pid (seat ''u1'' 1 []))
           \<and> phase s = DEALING_INITIAL"
    by blast
  from T1 [rule_format, of 5]
  have A: "\<exists>t s. hakimDetermination ''u1'' detRoom (createDeck (\<lambda>i. i)) 5 = Some (Inr (t, s))
         \<and> hakimDeterminationCards s = take 5 (createDeck (\<lambda>i. i))
         \<and> phase s = HAKIM_DETERMINATION"
    by auto
  from T2 [rule_format, of 13] p
  have B: "\<exists>t s. hakimDetermination ''u1'' detRoom (createDeck (\<lambda>i. i)) 13 = Some (Inr (t, s))
         \<and> hakimDeterminationCards s = take 13 (createDeck (\<lambda>i. i))
         \<and> hakimId s = Some ''u1'' \<and> currentTurnPlayerId s = Some ''u1''
         \<and> phase s = DEALING_INITIAL"
    by auto
  have g: "find (\<lambda>c. rank c = Ace) (take 12 (createDeck (\<lambda>i. i))) = None"
    using f k(2) by (auto simp: find_None_iff in_set_conv_nth)
  from A B a g detRoom_facts(1,2,3) validRnd_id show ?thesis by blast
qed

section \<open>Playing a card: when a play is accepted\<close>

text \<open>C1 (as the code has it): \<open>handlePlayCard\<close> reads two copies of the game state,
  the rendered copy \<open>gameState\<close> and the stored document \<open>roomData\<close> of the room. A play
  changes the store if and only if, on the rendered copy, (a) the player holds the turn,
  (b) the table has fewer cards than the player count, the player sits at a seat, and
  (d) when the table is not empty and the player's hand has a card of the lead suit, the
  played card is of the lead suit; and, on the stored document, (a) and (b) hold again and
  the player sits at a seat. The follow-suit rule (d) is tested on the rendered copy
  only, and whether the hand contains the played card is tested on neither. When the
  play is accepted, in the stored document the cards with the id of the played card are
  filtered out of that player's hand, \<open>{playerId, card}\<close> is appended to \<open>tableCards\<close>,
  \<open>currentTurnPlayerId\<close> becomes the id at seat \<open>(currentIndex + 1) mod playerCount\<close>
  and \<open>lastActionTimestamp\<close> is stamped. When the two copies are the same state, the
  condition is (a), (b), a seat and (d) on that state.\<close>

theorem handlePlayCard_accepts:
  assumes stored: "st rid = Some roomData"
    and rid: "rid \<noteq> []"
    and cnt: "playerCount = maxPlayers (mode gameState)"
    and lead: "leadSuit = suit (card_t (hd (tableCards gameState)))"
    and idx: "currentIndex = findPlayerIndex (\<lambda>p. pid p = userId) (players roomData)"
  shows "(handlePlayCard gameState userId c now rid None st \<noteq> Inr st
          \<longleftrightarrow> (currentTurnPlayerId gameState = Some userId
               \<and> int (length (tableCards gameState)) < playerCount
               \<and> (\<exists>player. findPlayer (\<lambda>p. pid p = userId) (players gameState) = Some player
                    \<and> (tableCards gameState \<noteq> [] \<and> (\<exists>x \<in> set (hand player). suit x = leadSuit)
                         \<longrightarrow> suit c = leadSuit)))
              \<and> (currentTurnPlayerId roomData = Some userId
               \<and> int (length (tableCards roomData)) < playerCount
               \<and> (\<exists>p. findPlayer (\<lambda>p. pid p = userId) (players roomData) = Some p)))
     \<and> (handlePlayCard gameState userId c now rid None st \<noteq> Inr st
          \<longrightarrow> (\<exists>p. findPlayer (\<lambda>p. pid p = userId) (players roomData) = Some p
                \<and> handlePlayCard gameState userId c now rid None st =
                  Inr (st(rid \<mapsto> roomData
                     \<lparr>players := setSeat (players roomData) currentIndex
                         (Some (p\<lparr>hand := filter (\<lambda>x. cid x \<noteq> cid c) (hand p)\<rparr>)),
                      tableCards := tableCards roomData @ [\<lparr>playerId = userId, card_t = c\<rparr>],
                      lastActionTimestamp := Some now,
                      currentTurnPlayerId := map_option pid (seatAt (players roomData)
                         ((currentIndex + 1) mod playerCount))\<rparr>))))"
proof -
  let ?local = "currentTurnPlayerId gameState = Some userId
               \<and> int (length (tableCards gameState)) < playerCount
               \<and> (\<exists>player. findPlayer (\<lambda>p. pid p = userId) (players gameState) = Some player
                    \<and> (tableCards gameState \<noteq> [] \<and> (\<exists>x \<in> set (hand player). suit x = leadSuit)
                         \<longrightarrow> suit c = leadSuit))"
  let ?remote = "currentTurnPlayerId roomData = Some userId
               \<and> int (length (tableCards roomData)) < playerCount
               \<and> (\<exists>p. findPlayer (\<lambda>p. pid p = userId) (players roomData) = Some p)"
  let ?res = "handlePlayCard gameState userId c now rid None st"
  let ?tx = "performTransaction (playCardModifier userId playerCount c now) rid None st"
  have no_local: "\<not> ?local \<Longrightarrow> ?res = Inr st"
    using lead cnt by (auto simp: handlePlayCard_def Let_def split: option.splits)
  have go: "?res = ?tx" if l: ?local
  proof -
    from l obtain player where t: "currentTurnPlayerId gameState = Some userId"
      and f: "int (length (tableCards gameState)) < playerCount"
      and s: "findPlayer (\<lambda>p. pid p = userId) (players gameState) = Some player"
      and d: "tableCards gameState \<noteq> [] \<and> (\<exists>x \<in> set (hand player). suit x = leadSuit)
                \<longrightarrow> suit c = leadSuit" by blast
    show ?thesis using t f s d lead cnt by (auto simp: handlePlayCard_def Let_def)
  qed
  have no_remote: "?tx = Inr st" if "\<not> ?remote"
  proof -
    have "playCardModifier userId playerCount c now roomData = Inr None"
    proof (cases "currentTurnPlayerId roomData = Some userId")
      case False
      then show ?thesis by (rule playCardModifier_turn)
    next
      case t: True
      show ?thesis
      proof (cases "int (length (tableCards roomData)) < playerCount")
        case False
        then show ?thesis by (intro playCardModifier_full) simp
      next
        case True
        with t that have "findPlayer (\<lambda>p. pid p = userId) (players roomData) = None"
          by (cases "findPlayer (\<lambda>p. pid p = userId) (players roomData)") auto
        then show ?thesis by (rule playCardModifier_unseated)
      qed
    qed
    with stored show ?thesis by (rule performTransaction_abort)
  qed
  have yes: "?tx = Inr (st(rid \<mapsto> roomData
                     \<lparr>players := setSeat (players roomData) currentIndex
                         (Some (p\<lparr>hand := filter (\<lambda>x. cid x \<noteq> cid c) (hand p)\<rparr>)),
                      tableCards := tableCards roomData @ [\<lparr>playerId = userId, card_t = c\<rparr>],
                      lastActionTimestamp := Some now,
                      currentTurnPlayerId := map_option pid (seatAt (players roomData)
                         ((currentIndex + 1) mod playerCount))\<rparr>))"
    if t: "currentTurnPlayerId roomData = Some userId"
      and f: "int (length (tableCards roomData)) < playerCount"
      and s: "findPlayer (\<lambda>p. pid p = userId) (players roomData) = Some p"
    for p
  proof -
    have pos: "0 < playerCount" using cnt maxPlayers_pos by simp
    show ?thesis
      using stored rid idx playCardModifier_ok [OF t f pos s, of c now]
      by (simp add: performTransaction_def)
  qed
  have diff: "Inr (st(rid \<mapsto> s')) \<noteq> (Inr st :: error + store)"
    if "tableCards s' \<noteq> tableCards roomData" for s'
  proof
    assume "Inr (st(rid \<mapsto> s')) = (Inr st :: error + store)"
    then have "(st(rid \<mapsto> s')) rid = st rid" by simp
    with stored that show False by auto
  qed
  show ?thesis
  proof (cases "?local \<and> ?remote")
    case True
    then obtain p where s: "findPlayer (\<lambda>p. pid p = userId) (players roomData) = Some p"
      by blast
    from True have t: "currentTurnPlayerId roomData = Some userId"
      and f: "int (length (tableCards roomData)) < playerCount" by simp_all
    from True have "?res = ?tx" using go by blast
    with yes [OF t f s] have y: "?res = Inr (st(rid \<mapsto> roomData
                     \<lparr>players := setSeat (players roomData) currentIndex
                         (Some (p\<lparr>hand := filter (\<lambda>x. cid x \<noteq> cid c) (hand p)\<rparr>)),
                      tableCards := tableCards roomData @ [\<lparr>playerId = userId, card_t = c\<rparr>],
                      lastActionTimestamp := Some now,
                      currentTurnPlayerId := map_option pid (seatAt (players roomData)
                         ((currentIndex + 1) mod playerCount))\<rparr>))" by simp
    have "?res \<noteq> Inr st" unfolding y by (rule diff) simp
    with True s y show ?thesis by blast
  next
    case False
    have "?res = Inr st"
    proof (cases ?local)
      case l: True
      with False have "\<not> ?remote" by blast
      with l go no_remote show ?thesis by simp
    next
      case l: False
      then show ?thesis by (rule no_local)
    qed
    with False show ?thesis by blast
  qed
qed

theorem handlePlayCard_accepts_witness:
  "[''r1'' \<mapsto> playRoom] ''r1'' = Some playRoom \<and> ''r1'' \<noteq> []
   \<and> currentTurnPlayerId playRoom = Some ''u1''
   \<and> int (length (tableCards playRoom)) < maxPlayers (mode playRoom)
   \<and> handlePlayCard playRoom ''u1'' (mkCard Spades 2 ''S-2'') 7 ''r1'' None [''r1'' \<mapsto> playRoom]
       \<noteq> Inr [''r1'' \<mapsto> playRoom]
   \<and> handlePlayCard playRoom ''u2'' (mkCard Spades 9 ''S-9'') 7 ''r1'' None [''r1'' \<mapsto> playRoom]
       = Inr [''r1'' \<mapsto> playRoom]
   \<and> [''r1'' \<mapsto> lagStored] ''r1'' = Some lagStored
   \<and> map (suit \<circ> card_t) (tableCards lagStored) = [Spades]
   \<and> map_option (map suit \<circ> hand) (seatAt (players lagStored) 1) = Some [Spades, Diamonds]
   \<and> handlePlayCard lagLocal ''u2'' (mkCard Diamonds 3 ''D-3'') 7 ''r1'' None
        [''r1'' \<mapsto> lagStored]
       \<noteq> Inr [''r1'' \<mapsto> lagStored]"
proof -
  have t2: "currentTurnPlayerId playRoom \<noteq> Some ''u2''"
    by (simp add: playRoom_def newRoom_def)
  from handlePlayCard_accepts [where gameState = playRoom and roomData = playRoom
      and st = "[''r1'' \<mapsto> playRoom]"
      and rid = "''r1''" and userId = "''u1''" and currentIndex = 0
      and playerCount = "maxPlayers (mode playRoom)"
      and leadSuit = "suit (card_t (hd (tableCards playRoom)))"
      and c = "mkCard Spades 2 ''S-2''" and now = 7] playRoom_facts playRoom_u1
  have a: "handlePlayCard playRoom ''u1'' (mkCard Spades 2 ''S-2'') 7 ''r1'' None
             [''r1'' \<mapsto> playRoom] \<noteq> Inr [''r1'' \<mapsto> playRoom]"
    by simp
  from handlePlayCard_accepts [where gameState = playRoom and roomData = playRoom
      and st = "[''r1'' \<mapsto> playRoom]"
      and rid = "''r1''" and userId = "''u2''"
      and currentIndex = "findPlayerIndex (\<lambda>p. pid p = ''u2'') (players playRoom)"
      and playerCount = "maxPlayers (mode playRoom)"
      and leadSuit = "suit (card_t (hd (tableCards playRoom)))"
      and c = "mkCard Spades 9 ''S-9''" and now = 7] playRoom_facts(2,3) t2
  have b: "handlePlayCard playRoom ''u2'' (mkCard Spades 9 ''S-9'') 7 ''r1'' None
             [''r1'' \<mapsto> playRoom] = Inr [''r1'' \<mapsto> playRoom]"
    by blast
  from handlePlayCard_accepts [where gameState = lagLocal and roomData = lagStored
      and st = "[''r1'' \<mapsto> lagStored]"
      and rid = "''r1''" and userId = "''u2''" and currentIndex = 1
      and playerCount = "maxPlayers (mode lagLocal)"
      and leadSuit = "suit (card_t (hd (tableCards lagLocal)))"
      and c = "mkCard Diamonds 3 ''D-3''" and now = 7] lag_facts playRoom_facts(3)
  have c: "handlePlayCard lagLocal ''u2'' (mkCard Diamonds 3 ''D-3'') 7 ''r1'' None
        [''r1'' \<mapsto> lagStored] \<noteq> Inr [''r1'' \<mapsto> lagStored]"
    by simp
  from a b c playRoom_facts playRoom_u1 lag_facts(1) lag_lead show ?thesis by simp
qed

theorem handlePlayCard_unheld_counterexample:
  "phase playRoom = PLAYING
   \<and> map_option (map cid \<circ> hand) (seatAt (players playRoom) 0) = Some [''S-2'', ''H-5'']
   \<and> handlePlayCard playRoom ''u1'' (mkCard Diamonds 14 ''D-14'') 7 ''r1'' None
        [''r1'' \<mapsto> playRoom]
      = Inr [''r1'' \<mapsto> playRoom
          \<lparr>tableCards := [\<lparr>playerId = ''u1'', card_t = mkCard Diamonds 14 ''D-14''\<rparr>],
           lastActionTimestamp := Some 7,
           currentTurnPlayerId := Some ''u2''\<rparr>]
   \<and> map_option (map cid \<circ> hand) (seatAt (players staleStored) 0) = Some [''H-5'']
   \<and> handlePlayCard playRoom ''u1'' (mkCard Spades 2 ''S-2'') 9 ''r1'' None
        [''r1'' \<mapsto> staleStored]
      = Inr [''r1'' \<mapsto> staleStored
          \<lparr>tableCards := [\<lparr>playerId = ''u1'', card_t = mkCard Spades 2 ''S-2''\<rparr>],
           lastActionTimestamp := Some 9,
           currentTurnPlayerId := Some ''u2''\<rparr>]"
proof -
  have h: "map_option (map cid \<circ> hand) (seatAt (players playRoom) 0) = Some [''S-2'', ''H-5'']"
    by (simp add: playRoom_def seatAt2 seat_def mkCard_def)
  have e: "playRoom
     \<lparr>players := [Some (seat ''u1'' 1
                    (filter (\<lambda>x. cid x \<noteq> cid (mkCard Diamonds 14 ''D-14''))
                       [mkCard Spades 2 ''S-2'', mkCard Hearts 5 ''H-5''])),
                  Some (seat ''u2'' 2 [mkCard Spades 9 ''S-9'', mkCard Diamonds 3 ''D-3''])],
      tableCards := [\<lparr>playerId = ''u1'', card_t = mkCard Diamonds 14 ''D-14''\<rparr>],
      lastActionTimestamp := Some 7,
      currentTurnPlayerId := Some ''u2''\<rparr>
     = playRoom
          \<lparr>tableCards := [\<lparr>playerId = ''u1'', card_t = mkCard Diamonds 14 ''D-14''\<rparr>],
           lastActionTimestamp := Some 7,
           currentTurnPlayerId := Some ''u2''\<rparr>"
    by (simp add: playRoom_def newRoom_def mkCard_def)
  have "handlePlayCard playRoom ''u1'' (mkCard Diamonds 14 ''D-14'') 7 ''r1'' None
        [''r1'' \<mapsto> playRoom]
      = Inr [''r1'' \<mapsto> playRoom
     \<lparr>players := [Some (seat ''u1'' 1
                    (filter (\<lambda>x. cid x \<noteq> cid (mkCard Diamonds 14 ''D-14''))
                       [mkCard Spades 2 ''S-2'', mkCard Hearts 5 ''H-5''])),
                  Some (seat ''u2'' 2 [mkCard Spades 9 ''S-9'', mkCard Diamonds 3 ''D-3''])],
      tableCards := [\<lparr>playerId = ''u1'', card_t = mkCard Diamonds 14 ''D-14''\<rparr>],
      lastActionTimestamp := Some 7,
      currentTurnPlayerId := Some ''u2''\<rparr>]"
    by (rule playRoom_play)
  then have r: "handlePlayCard playRoom ''u1'' (mkCard Diamonds 14 ''D-14'') 7 ''r1'' None
        [''r1'' \<mapsto> playRoom]
      = Inr [''r1'' \<mapsto> playRoom
          \<lparr>tableCards := [\<lparr>playerId = ''u1'', card_t = mkCard Diamonds 14 ''D-14''\<rparr>],
           lastActionTimestamp := Some 7,
           currentTurnPlayerId := Some ''u2''\<rparr>]"
    by (simp only: e)
  have h2: "map_option (map cid \<circ> hand) (seatAt (players staleStored) 0) = Some [''H-5'']"
    by (simp add: staleStored_def seatAt2 seat_def mkCard_def)
  have m: "playCardModifier ''u1'' 2 (mkCard Spades 2 ''S-2'') 9 staleStored =
      Inr (Some (staleStored
          \<lparr>tableCards := [\<lparr>playerId = ''u1'', card_t = mkCard Spades 2 ''S-2''\<rparr>],
           lastActionTimestamp := Some 9,
           currentTurnPlayerId := Some ''u2''\<rparr>))"
    by (simp add: playCardModifier_def staleStored_def playRoom_def newRoom_def seat_def
        mkCard_def findPlayerIndex_def seatAt_def setSeat_def jsRem_def Let_def)
  have "handlePlayCard playRoom ''u1'' (mkCard Spades 2 ''S-2'') 9 ''r1'' None
          [''r1'' \<mapsto> staleStored]
        = performTransaction (playCardModifier ''u1'' 2 (mkCard Spades 2 ''S-2'') 9) ''r1'' None
            [''r1'' \<mapsto> staleStored]"
    using playRoom_u1
    by (simp add: handlePlayCard_def maxPlayers_def Let_def playRoom_def newRoom_def)
  then have r2: "handlePlayCard playRoom ''u1'' (mkCard Spades 2 ''S-2'') 9 ''r1'' None
        [''r1'' \<mapsto> staleStored]
      = Inr [''r1'' \<mapsto> staleStored
          \<lparr>tableCards := [\<lparr>playerId = ''u1'', card_t = mkCard Spades 2 ''S-2''\<rparr>],
           lastActionTimestamp := Some 9,
           currentTurnPlayerId := Some ''u2''\<rparr>]"
    by (simp add: performTransaction_def m)
  from h r h2 r2 playRoom_facts(1) show ?thesis by blast
qed

end
